theory Spec2Isabelle
  imports Main
begin

section \<open>The date picker hook \<open>useDatePicker\<close>\<close>

text \<open>
  This theory embeds \<^verbatim>\<open>src/datePicker/useDatePicker/useDatePicker.ts\<close>. The hook is a
  React function component body: a handful of state slices (\<^verbatim>\<open>useState\<close>), event
  handlers that read the slices of the current render and enqueue updates, and effects.
  A handler is modelled as a function from the state of the render it was created in to
  the state after its updates are applied.

  A JavaScript \<^verbatim>\<open>Date\<close> is its time value, the milliseconds since the epoch; the model
  covers valid dates (a finite time value), so \<^verbatim>\<open>Date\<close> is \<open>int\<close>. \<^verbatim>\<open>undefined\<close> is
  \<open>None\<close> of an option type, \<^verbatim>\<open>null\<close> is the constructor \<open>Null\<close>.

  Embedded are the initial state and the mount effect, the key-down handler,
  \<^verbatim>\<open>onDateSelect\<close>, the click handler of \<^verbatim>\<open>getDateProps\<close>, the change handler of
  \<^verbatim>\<open>getInputProps\<close>, \<^verbatim>\<open>calculatePotentialRange\<close> and \<^verbatim>\<open>onDateHover\<close>. The window
  operations (\<^verbatim>\<open>movePickerBy\<close>, \<^verbatim>\<open>goToDate\<close>, the effect that follows the focused date),
  \<^verbatim>\<open>reset\<close>, the blur handler and the DOM wiring are left out. The key-down handler is
  embedded with its throttle and the key-up handler that cancels it.
\<close>

subsection \<open>Data\<close>

type_synonym Date = int

datatype NullableDate = Null | DateValue Date

text \<open>\<^verbatim>\<open>Duration\<close> of date-fns; an absent field counts as 0 there.\<close>

record Duration =
  years :: int
  months :: int
  weeks :: int
  days :: int
  hours :: int
  minutes :: int
  seconds :: int

text \<open>\<^verbatim>\<open>Interval\<close> of date-fns: \<^verbatim>\<open>{ start, end }\<close>.\<close>

record Interval =
  istart :: Date
  iend :: Date

datatype ActiveSelection = ActiveSelection_start | ActiveSelection_end | ActiveSelection_none

text \<open>
  The source keeps an error reason in a string variable \<^verbatim>\<open>validationError\<close> that is
  either empty or one of seven literals; the literals are the constructors below and the
  empty string is \<open>None\<close>.
\<close>

datatype ErrorReason =
    LESS_THAN_MIN_DATE
  | GREATER_THAN_MAX_DATE
  | BLOCKED_DATE
  | VIOLATES_FIX_RANGE
  | LESS_THAN_MIN_RANGE
  | GREATER_THAN_MAX_RANGE
  | CONTAINS_BLOCKED_DATE

record ValidationError =
  reason :: ErrorReason

text \<open>\<^verbatim>\<open>validationError ? { reason: validationError } : null\<close>\<close>

definition toError :: "ErrorReason option \<Rightarrow> ValidationError option" where
  "toError validationError =
     (case validationError of None \<Rightarrow> None | Some r \<Rightarrow> Some \<lparr>reason = r\<rparr>)"

record THoveredDate =
  hovered_date :: Date
  hovered_error :: "ValidationError option"

record TPotentialRange =
  range' :: Interval
  error :: "ValidationError option"

text \<open>
  \<^verbatim>\<open>TMonth\<close> and \<^verbatim>\<open>TPickerMonth\<close> are declared in \<^verbatim>\<open>./typings\<close> and
  \<^verbatim>\<open>./useDatePicker.utils\<close>; the hook reads \<^verbatim>\<open>month.date\<close> and \<^verbatim>\<open>isPadding\<close> only.
\<close>

record TMonth =
  date :: Date

record TPickerMonth =
  month :: TMonth
  isPadding :: bool

typedecl TPickerMonthPadding

record TDateRange =
  start :: "Date option"
  end' :: "Date option"

record TCurrentInputValues =
  input_start :: string
  input_end :: string

record OnDatesChangeProps =
  cb_startDate :: NullableDate
  cb_endDate :: NullableDate

text \<open>\<^verbatim>\<open>x ?? null\<close>\<close>

definition orNull :: "Date option \<Rightarrow> NullableDate" where
  "orNull x = (case x of None \<Rightarrow> Null | Some d \<Rightarrow> DateValue d)"

text \<open>\<^verbatim>\<open>unavailableDates?: Date[] | ((date: Date) => boolean)\<close>\<close>

datatype UnavailableDates = DateArray "Date list" | DatePredicate "Date \<Rightarrow> bool"

text \<open>
  The destructured parameter of \<^verbatim>\<open>useDatePicker\<close>, after its defaults are applied.
  \<^verbatim>\<open>onDatesChange\<close> is not a field: its invocations are logged in the state below.
\<close>

record UseDatePickerProps =
  startDate :: NullableDate
  endDate :: NullableDate
  minDate :: NullableDate
  maxDate :: NullableDate
  initialVisibleMonth :: "Date option"
  fixRange :: "Duration option"
  minDateRange :: "Duration option"
  maxDateRange :: "Duration option"
  numberOfMonths :: int
  firstDayOfWeek :: int
  unavailableDates :: UnavailableDates
  inputFormat :: string
  padding :: "TPickerMonthPadding option"

subsection \<open>What the module imports\<close>

text \<open>
  The hook imports calendar arithmetic from date-fns and helpers from
  \<^verbatim>\<open>./useDatePicker.utils\<close>; neither is part of the file. Those the embedded handlers
  call are parameters of the model, collected in one record, so every theorem below
  holds for whatever these functions compute. \<^verbatim>\<open>parse\<close> yields a \<^verbatim>\<open>Date\<close> that may be invalid and the source
  tests it with \<^verbatim>\<open>isValid\<close>: here \<open>parse\<close> returns \<open>None\<close> for an invalid date.
  \<^verbatim>\<open>eachDayOfInterval\<close> throws a \<^verbatim>\<open>RangeError\<close> on an interval it refuses: \<open>None\<close>.
\<close>

record ValidateDatesArgs =
  v_start :: "Date option"
  v_end :: "Date option"
  v_isDisabled :: "Date \<Rightarrow> bool"
  v_minDate :: NullableDate
  v_maxDate :: NullableDate
  v_minDateRange :: "Duration option"
  v_maxDateRange :: "Duration option"

record GetPickerMonthsArgs =
  g_numberOfMonths :: int
  g_firstDayOfWeek :: int
  g_startDate :: "Date option"
  g_endDate :: "Date option"
  g_padding :: "TPickerMonthPadding option"

record Imports =
  add :: "Date \<Rightarrow> Duration \<Rightarrow> Date"
  addDays :: "Date \<Rightarrow> int \<Rightarrow> Date"
  addWeeks :: "Date \<Rightarrow> int \<Rightarrow> Date"
  addMonths :: "Date \<Rightarrow> int \<Rightarrow> Date"
  eachDayOfInterval :: "Interval \<Rightarrow> Date list option"
  isAfter :: "Date \<Rightarrow> Date \<Rightarrow> bool"
  isBefore :: "Date \<Rightarrow> Date \<Rightarrow> bool"
  isSameDay :: "Date \<Rightarrow> Date \<Rightarrow> bool"
  isSameMonth :: "Date \<Rightarrow> Date \<Rightarrow> bool"
  format :: "Date \<Rightarrow> string \<Rightarrow> string"
  parse :: "string \<Rightarrow> string \<Rightarrow> Date \<Rightarrow> Date option"
  getPickerMonths :: "GetPickerMonthsArgs \<Rightarrow> TPickerMonth list"
  validateDates :: "ValidateDatesArgs \<Rightarrow> bool"

subsection \<open>State\<close>

text \<open>
  One field per \<^verbatim>\<open>useState\<close> slice, and the list of arguments \<^verbatim>\<open>onDatesChange\<close> has
  been called with, oldest first.
\<close>

record PickerState =
  activeMonths :: "TPickerMonth list"
  hoveredDate :: "THoveredDate option"
  focusedDate :: "Date option"
  activeSelection :: ActiveSelection
  dateRange :: TDateRange
  currentInputValues :: TCurrentInputValues
  potentialRange :: "TPotentialRange option"
  onDatesChangeCalls :: "OnDatesChangeProps list"

subsection \<open>Keyboard focus\<close>

text \<open>
  \<^verbatim>\<open>handleKeyDown\<close> (lines 202--238) is \<^verbatim>\<open>throttle(body, 500, { leading: true })\<close>. The
  body calls \<^verbatim>\<open>setFocusedDate\<close> with an updater; \<open>keyDownBody\<close> is the state after that
  update. The \<^verbatim>\<open>switch\<close> of the updater falls out of its \<^verbatim>\<open>default\<close> branch without a
  \<^verbatim>\<open>return\<close>, so the updater yields \<^verbatim>\<open>undefined\<close> there.
\<close>

definition keyDownBody :: "Imports \<Rightarrow> PickerState \<Rightarrow> string \<Rightarrow> PickerState" where
  "keyDownBody I s key =
     s\<lparr>focusedDate :=
         (case focusedDate s of
            None \<Rightarrow>
              (case filter (\<lambda>m. \<not> isPadding m) (activeMonths s) of
                 [] \<Rightarrow> None
               | m # _ \<Rightarrow> Some (date (month m)))
          | Some d \<Rightarrow>
              if key = ''ArrowRight'' then Some (addDays I d 1)
              else if key = ''ArrowLeft'' then Some (addDays I d (- 1))
              else if key = ''ArrowUp'' then Some (addWeeks I d (- 1))
              else if key = ''ArrowDown'' then Some (addWeeks I d 1)
              else if key = ''PageUp'' then Some (addMonths I d (- 1))
              else if key = ''PageDown'' then Some (addMonths I d 1)
              else None)\<rparr>"

definition navigationKeys :: "string list" where
  "navigationKeys =
     [''ArrowRight'', ''ArrowLeft'', ''ArrowUp'', ''ArrowDown'', ''PageUp'', ''PageDown'']"

text \<open>
  The throttle is lodash's: \<^verbatim>\<open>throttle(func, wait, options)\<close> is \<^verbatim>\<open>debounce\<close> with
  \<^verbatim>\<open>maxWait = wait\<close>, here with the leading edge asked for and the trailing edge left at
  its default, on. Its closure variables are the fields below: the arguments of the last
  call while they wait to be used (the key of the event), the times of the last call and
  of the last run of \<^verbatim>\<open>func\<close>, and the pending timer, written as the time it is due.
  Times are milliseconds, the values of \<^verbatim>\<open>Date.now()\<close> at the events.
\<close>

record Throttle =
  lastArgs :: "string option"
  lastCallTime :: "int option"
  lastInvokeTime :: int
  timerId :: "int option"

definition throttleWait :: int where
  "throttleWait = 500"

definition freshThrottle :: Throttle where
  "freshThrottle = \<lparr>lastArgs = None, lastCallTime = None, lastInvokeTime = 0, timerId = None\<rparr>"

definition shouldInvoke :: "Throttle \<Rightarrow> int \<Rightarrow> bool" where
  "shouldInvoke th time =
     (case lastCallTime th of
        None \<Rightarrow> True
      | Some c \<Rightarrow>
          throttleWait \<le> time - c \<or> time - c < 0 \<or> throttleWait \<le> time - lastInvokeTime th)"

definition remainingWait :: "Throttle \<Rightarrow> int \<Rightarrow> int" where
  "remainingWait th time =
     (case lastCallTime th of
        None \<Rightarrow> 0
      | Some c \<Rightarrow>
          min (throttleWait - (time - c)) (throttleWait - (time - lastInvokeTime th)))"

text \<open>
  The picker state together with the state of the throttle that the memoized
  \<^verbatim>\<open>handleKeyDown\<close> closes over. (\<^verbatim>\<open>useCallback\<close> keeps the function, and with it the
  throttle, while \<^verbatim>\<open>activeMonths\<close> is the same; the handlers below do not change
  \<^verbatim>\<open>activeMonths\<close>.)
\<close>

record Keyboard =
  picker :: PickerState
  throttle :: Throttle

text \<open>
  A key-down event at \<open>time\<close>: the throttled function. When \<^verbatim>\<open>shouldInvoke\<close> holds the
  body runs at once with this event (the leading edge when no timer is pending, the
  \<^verbatim>\<open>maxWait\<close> branch when one is) and the timer is set anew; otherwise the event is kept
  in \<^verbatim>\<open>lastArgs\<close> for the timer, which is started if none is pending.
\<close>

definition handleKeyDown :: "Imports \<Rightarrow> Keyboard \<Rightarrow> string \<Rightarrow> int \<Rightarrow> Keyboard" where
  "handleKeyDown I k key time =
     (if shouldInvoke (throttle k) time then
        \<lparr>picker = keyDownBody I (picker k) key,
         throttle =
           \<lparr>lastArgs = None,
            lastCallTime = Some time,
            lastInvokeTime = time,
            timerId = Some (time + throttleWait)\<rparr>\<rparr>
      else
        \<lparr>picker = picker k,
         throttle =
           (throttle k)
             \<lparr>lastArgs := Some key,
              lastCallTime := Some time,
              timerId :=
                (case timerId (throttle k) of
                   None \<Rightarrow> Some (time + throttleWait)
                 | Some due \<Rightarrow> Some due)\<rparr>\<rparr>)"

text \<open>
  The timer's callback at \<open>time\<close> (\<^verbatim>\<open>timerExpired\<close>): the trailing edge runs the body with
  the kept event, if there is one; when it is too early the timer is set again.
\<close>

definition timerExpired :: "Imports \<Rightarrow> Keyboard \<Rightarrow> int \<Rightarrow> Keyboard" where
  "timerExpired I k time =
     (if shouldInvoke (throttle k) time then
        (case lastArgs (throttle k) of
           Some key \<Rightarrow>
             \<lparr>picker = keyDownBody I (picker k) key,
              throttle =
                (throttle k)\<lparr>lastArgs := None, lastInvokeTime := time, timerId := None\<rparr>\<rparr>
         | None \<Rightarrow> k\<lparr>throttle := (throttle k)\<lparr>timerId := None\<rparr>\<rparr>)
      else
        k\<lparr>throttle :=
            (throttle k)\<lparr>timerId := Some (time + remainingWait (throttle k) time)\<rparr>\<rparr>)"

text \<open>\<^verbatim>\<open>handleKeyUp\<close> (lines 240--242): \<^verbatim>\<open>handleKeyDown.cancel()\<close>.\<close>

definition handleKeyUp :: "Keyboard \<Rightarrow> Keyboard" where
  "handleKeyUp k = k\<lparr>throttle := freshThrottle\<rparr>"

subsection \<open>Text of the two inputs, blocked dates\<close>

definition getInputValuesFromRange ::
    "Imports \<Rightarrow> UseDatePickerProps \<Rightarrow> TDateRange \<Rightarrow> TCurrentInputValues" where
  "getInputValuesFromRange I props r =
     \<lparr>input_start = (case start r of Some d \<Rightarrow> format I d (inputFormat props) | None \<Rightarrow> ''''),
      input_end = (case end' r of Some d \<Rightarrow> format I d (inputFormat props) | None \<Rightarrow> '''')\<rparr>"

definition isDisabled :: "Imports \<Rightarrow> UseDatePickerProps \<Rightarrow> Date \<Rightarrow> bool" where
  "isDisabled I props dt =
     (case unavailableDates props of
        DatePredicate f \<Rightarrow> f dt
      | DateArray ds \<Rightarrow> list_ex (\<lambda>d. isSameDay I dt d) ds)"

subsection \<open>Initial state and the mount effect\<close>

text \<open>
  The initial values of the \<^verbatim>\<open>useState\<close> calls (lines 95--104). None of them reads
  a prop: the destructured \<^verbatim>\<open>startDate\<close> and \<^verbatim>\<open>endDate\<close> are not used anywhere in
  the function body.
\<close>

definition initialState :: "UseDatePickerProps \<Rightarrow> PickerState" where
  "initialState props =
     \<lparr>activeMonths = [],
      hoveredDate = None,
      focusedDate = None,
      activeSelection = ActiveSelection_start,
      dateRange = \<lparr>start = None, end' = None\<rparr>,
      currentInputValues = \<lparr>input_start = '''', input_end = ''''\<rparr>,
      potentialRange = None,
      onDatesChangeCalls = []\<rparr>"

text \<open>\<^verbatim>\<open>a || b\<close> on an optional date: a \<^verbatim>\<open>Date\<close> object is truthy.\<close>

definition orElse :: "Date option \<Rightarrow> Date option \<Rightarrow> Date option" where
  "orElse a b = (case a of Some d \<Rightarrow> Some d | None \<Rightarrow> b)"

text \<open>The effect with the empty dependency list (lines 111--123), run once after mount.\<close>

definition mountEffect :: "Imports \<Rightarrow> UseDatePickerProps \<Rightarrow> PickerState \<Rightarrow> PickerState" where
  "mountEffect I props s =
     s\<lparr>activeMonths :=
         getPickerMonths I
           \<lparr>g_numberOfMonths = numberOfMonths props,
            g_firstDayOfWeek = firstDayOfWeek props,
            g_startDate = orElse (start (dateRange s)) (initialVisibleMonth props),
            g_endDate = end' (dateRange s),
            g_padding = padding props\<rparr>,
       currentInputValues := getInputValuesFromRange I props (dateRange s)\<rparr>"

definition useDatePicker_mounted :: "Imports \<Rightarrow> UseDatePickerProps \<Rightarrow> PickerState" where
  "useDatePicker_mounted I props = mountEffect I props (initialState props)"

subsection \<open>Committing a range\<close>

text \<open>
  \<^verbatim>\<open>onDateSelect\<close> (lines 248--298). The function is a closure of one render: what it
  reads (\<^verbatim>\<open>activeMonths\<close>, \<^verbatim>\<open>activeSelection\<close>) are that render's values, \<open>snap\<close>, also
  when a caller has enqueued an update just before; its own updates go to \<open>pending\<close>,
  the state the enqueued updates have produced so far.
\<close>

definition validateArgs ::
    "Imports \<Rightarrow> UseDatePickerProps \<Rightarrow> TDateRange \<Rightarrow> ValidateDatesArgs" where
  "validateArgs I props r =
     \<lparr>v_start = start r,
      v_end = end' r,
      v_isDisabled = isDisabled I props,
      v_minDate = minDate props,
      v_maxDate = maxDate props,
      v_minDateRange = minDateRange props,
      v_maxDateRange = maxDateRange props\<rparr>"

definition isVisible :: "Imports \<Rightarrow> PickerState \<Rightarrow> Date option \<Rightarrow> bool" where
  "isVisible I snap x =
     (case x of
        None \<Rightarrow> False
      | Some d \<Rightarrow> list_ex (\<lambda>m. isSameMonth I (date (month m)) d) (activeMonths snap))"

definition onDateSelect ::
    "Imports \<Rightarrow> UseDatePickerProps \<Rightarrow> PickerState \<Rightarrow> TDateRange \<Rightarrow> bool \<Rightarrow> PickerState
      \<Rightarrow> PickerState" where
  "onDateSelect I props snap r sync pending =
     (if validateDates I (validateArgs I props r) then
        let p1 = pending\<lparr>dateRange := r\<rparr>;
            p2 = p1\<lparr>onDatesChangeCalls :=
                      onDatesChangeCalls p1 @
                        [\<lparr>cb_startDate = orNull (start r), cb_endDate = orNull (end' r)\<rparr>]\<rparr>;
            isStartDateVisible = isVisible I snap (start r);
            isEndDateVisible = isVisible I snap (end' r);
            p3 = (if (\<not> isStartDateVisible \<and> activeSelection snap = ActiveSelection_start) \<or>
                     (\<not> isEndDateVisible \<and> activeSelection snap = ActiveSelection_end)
                  then p2\<lparr>activeMonths :=
                            getPickerMonths I
                              \<lparr>g_numberOfMonths = numberOfMonths props,
                               g_firstDayOfWeek = firstDayOfWeek props,
                               g_startDate = orElse (start r) (initialVisibleMonth props),
                               g_endDate = end' r,
                               g_padding = padding props\<rparr>\<rparr>
                  else p2);
            p4 = (if sync then p3\<lparr>currentInputValues := getInputValuesFromRange I props r\<rparr>
                  else p3)
        in if activeSelection snap = ActiveSelection_end \<and> start r \<noteq> None
           then p4\<lparr>activeSelection := ActiveSelection_none\<rparr>
           else p4\<lparr>activeSelection := ActiveSelection_end\<rparr>
      else pending)"

text \<open>
  \<^verbatim>\<open>onDateClick\<close> of \<^verbatim>\<open>getDateProps\<close> (lines 404--413). In the last branch
  \<^verbatim>\<open>setActiveSelection(ActiveSelection.start)\<close> is enqueued first and \<^verbatim>\<open>onDateSelect\<close>
  still sees the render's \<^verbatim>\<open>activeSelection\<close>, which is \<^verbatim>\<open>none\<close>.
\<close>

definition onDateClick :: "Imports \<Rightarrow> UseDatePickerProps \<Rightarrow> PickerState \<Rightarrow> Date \<Rightarrow> PickerState" where
  "onDateClick I props s dt =
     (if activeSelection s = ActiveSelection_start then
        onDateSelect I props s ((dateRange s)\<lparr>start := Some dt\<rparr>) True s
      else if activeSelection s = ActiveSelection_end then
        onDateSelect I props s ((dateRange s)\<lparr>end' := Some dt\<rparr>) True s
      else
        onDateSelect I props s \<lparr>start = Some dt, end' = None\<rparr> True
          (s\<lparr>activeSelection := ActiveSelection_start\<rparr>))"

text \<open>
  \<^verbatim>\<open>onChange\<close> of \<^verbatim>\<open>getInputProps(type)\<close> (lines 451--466); \<open>now\<close> is the value of
  \<^verbatim>\<open>new Date()\<close>, the reference date handed to \<^verbatim>\<open>parse\<close>. \<^verbatim>\<open>sync\<close> takes its default,
  \<^verbatim>\<open>false\<close>.
\<close>

definition onChange ::
    "Imports \<Rightarrow> UseDatePickerProps \<Rightarrow> PickerState \<Rightarrow> ActiveSelection \<Rightarrow> string \<Rightarrow> Date
      \<Rightarrow> PickerState" where
  "onChange I props s type text now =
     (let p1 = s\<lparr>currentInputValues :=
                   \<lparr>input_start = (if type = ActiveSelection_start then text
                                    else input_start (currentInputValues s)),
                    input_end = (if type = ActiveSelection_end then text
                                  else input_end (currentInputValues s))\<rparr>\<rparr>
      in case parse I text (inputFormat props) now of
           None \<Rightarrow> p1
         | Some dt \<Rightarrow>
             if type = ActiveSelection_start
             then onDateSelect I props s ((dateRange s)\<lparr>start := Some dt\<rparr>) False p1
             else onDateSelect I props s ((dateRange s)\<lparr>end' := Some dt\<rparr>) False p1)"

subsection \<open>Hover\<close>

text \<open>
  \<^verbatim>\<open>calculatePotentialRange\<close> (lines 300--351), run by the effect on \<^verbatim>\<open>hoveredDate\<close>.
  The result is \<open>None\<close> when \<^verbatim>\<open>eachDayOfInterval\<close> throws. The three checks are written
  as the source's three \<^verbatim>\<open>if\<close> statements over the variable \<^verbatim>\<open>validationError\<close>;
  \<^verbatim>\<open>&&\<close> does not evaluate \<^verbatim>\<open>eachDayOfInterval\<close> once an error is set.
\<close>

definition formRange :: "PickerState \<Rightarrow> Date \<Rightarrow> Interval option" where
  "formRange s dt =
     (let r1 = (case start (dateRange s) of
                  Some a \<Rightarrow>
                    if activeSelection s = ActiveSelection_end \<and> a < dt
                    then Some \<lparr>istart = a, iend = dt\<rparr> else None
                | None \<Rightarrow> None)
      in case end' (dateRange s) of
           Some b \<Rightarrow>
             if activeSelection s = ActiveSelection_start \<and> dt < b
             then Some \<lparr>istart = dt, iend = b\<rparr> else r1
         | None \<Rightarrow> r1)"

definition rangeError ::
    "Imports \<Rightarrow> UseDatePickerProps \<Rightarrow> Interval \<Rightarrow> ErrorReason option option" where
  "rangeError I props r =
     (let e1 = (case minDateRange props of
                  Some m \<Rightarrow>
                    if \<not> isAfter I (iend r) (add I (istart r) m)
                    then Some LESS_THAN_MIN_RANGE else None
                | None \<Rightarrow> None);
          e2 = (case maxDateRange props of
                  Some m \<Rightarrow>
                    if e1 = None \<and> isAfter I (iend r) (add I (istart r) m)
                    then Some GREATER_THAN_MAX_RANGE else e1
                | None \<Rightarrow> e1)
      in if e2 = None then
           (case eachDayOfInterval I r of
              None \<Rightarrow> None
            | Some ds \<Rightarrow>
                Some (if \<not> list_ex (\<lambda>d. isDisabled I props d) ds
                      then Some CONTAINS_BLOCKED_DATE else e2))
         else Some e2)"

definition calculatePotentialRange ::
    "Imports \<Rightarrow> UseDatePickerProps \<Rightarrow> PickerState \<Rightarrow> Date option \<Rightarrow> PickerState option" where
  "calculatePotentialRange I props s x =
     (case x of
        None \<Rightarrow> Some (s\<lparr>potentialRange := None\<rparr>)
      | Some dt \<Rightarrow>
          if (start (dateRange s) = None \<and> end' (dateRange s) = None) \<or>
             activeSelection s = ActiveSelection_none
          then Some (s\<lparr>potentialRange := None\<rparr>)
          else
            (case formRange s dt of
               None \<Rightarrow> Some (s\<lparr>potentialRange := None\<rparr>)
             | Some r \<Rightarrow>
                 (case rangeError I props r of
                    None \<Rightarrow> None
                  | Some validationError \<Rightarrow>
                      Some (s\<lparr>potentialRange :=
                                Some \<lparr>range' = r, error = toError validationError\<rparr>\<rparr>))))"

text \<open>\<^verbatim>\<open>onDateHover\<close> (lines 353--387), again one \<^verbatim>\<open>if\<close> statement after the other.\<close>

definition lessThanMinDate :: "Imports \<Rightarrow> UseDatePickerProps \<Rightarrow> Date \<Rightarrow> bool" where
  "lessThanMinDate I props dt =
     (case minDate props of
        Null \<Rightarrow> False
      | DateValue m \<Rightarrow> isBefore I dt (addDays I m (- 1)))"

definition greaterThanMaxDate :: "Imports \<Rightarrow> UseDatePickerProps \<Rightarrow> Date \<Rightarrow> bool" where
  "greaterThanMaxDate I props dt =
     (case maxDate props of
        Null \<Rightarrow> False
      | DateValue m \<Rightarrow> isAfter I dt m)"

text \<open>\<^verbatim>\<open>endpoint && isAfter(date, add(endpoint, fixRange))\<close>\<close>

definition afterFixRange :: "Imports \<Rightarrow> Duration \<Rightarrow> Date option \<Rightarrow> Date \<Rightarrow> bool" where
  "afterFixRange I f endpoint dt =
     (case endpoint of
        None \<Rightarrow> False
      | Some e \<Rightarrow> isAfter I dt (add I e f))"

definition hoverError ::
    "Imports \<Rightarrow> UseDatePickerProps \<Rightarrow> PickerState \<Rightarrow> Date \<Rightarrow> ErrorReason option" where
  "hoverError I props s dt =
     (let e1 = (if isDisabled I props dt then Some BLOCKED_DATE else None);
          e2 = (if lessThanMinDate I props dt then Some LESS_THAN_MIN_DATE else e1);
          e3 = (if e2 = None \<and> greaterThanMaxDate I props dt
                then Some GREATER_THAN_MAX_DATE else e2)
      in case fixRange props of
           None \<Rightarrow> e3
         | Some f \<Rightarrow>
             if e3 = None \<and>
                (afterFixRange I f (start (dateRange s)) dt \<or>
                 afterFixRange I f (end' (dateRange s)) dt)
             then Some VIOLATES_FIX_RANGE else e3)"

definition onDateHover ::
    "Imports \<Rightarrow> UseDatePickerProps \<Rightarrow> PickerState \<Rightarrow> Date \<Rightarrow> PickerState" where
  "onDateHover I props s dt =
     s\<lparr>hoveredDate :=
         Some \<lparr>hovered_date = dt, hovered_error = toError (hoverError I props s dt)\<rparr>\<rparr>"

section \<open>A concrete calendar for the examples\<close>

text \<open>
  The closed examples below need values for the imported functions. This section gives
  date-fns as it behaves when the local time zone is UTC: a day is 86400000 ms and the
  calendar is the proleptic Gregorian one. \<open>format\<close> and \<open>parse\<close> cover patterns made
  of the tokens \<^verbatim>\<open>dd\<close>, \<^verbatim>\<open>MM\<close>, \<^verbatim>\<open>yyyy\<close> and literal characters, which includes the
  default \<^verbatim>\<open>dd/MM/yyyy\<close>.
\<close>

definition msPerDay :: int where
  "msPerDay = 86400000"

text \<open>
  Day number since the epoch to (year, month 1..12, day of month) and back, in three
  steps. A day of the 400-year era (counted from 1 March) to its year of the era and day of
  that year: centuries of 36524 days, four-year cycles of 1461 days, years of 365 days,
  the leap day last.
\<close>

definition yearOfEra :: "int \<Rightarrow> int \<times> int" where
  "yearOfEra doe =
     (let c = min (doe div 36524) 3;
          dc = doe - 36524 * c;
          q = dc div 1461;
          dq = dc mod 1461;
          yc = min (dq div 365) 3
      in (100 * c + 4 * q + yc, dq - 365 * yc))"

text \<open>The day of a year that starts in March to its month (0 is March) and day.\<close>

definition monthOfYear :: "int \<Rightarrow> int \<times> int" where
  "monthOfYear doy = (let mp = (5 * doy + 2) div 153 in (mp, doy - (153 * mp + 2) div 5))"

definition civilFromDays :: "int \<Rightarrow> int \<times> int \<times> int" where
  "civilFromDays z =
     (let zz = z + 719468;
          era = zz div 146097
      in case yearOfEra (zz mod 146097) of
           (yoe, doy) \<Rightarrow>
             (case monthOfYear doy of
                (mp, dd) \<Rightarrow>
                  let m = (if mp < 10 then mp + 3 else mp - 9)
                  in (yoe + era * 400 + (if m \<le> 2 then 1 else 0), m, dd + 1)))"

definition daysFromCivil :: "int \<Rightarrow> int \<Rightarrow> int \<Rightarrow> int" where
  "daysFromCivil y m d =
     (let yy = (if m \<le> 2 then y - 1 else y);
          era = yy div 400;
          yoe = yy mod 400;
          doy = (153 * (if 2 < m then m - 3 else m + 9) + 2) div 5 + d - 1;
          doe = yoe * 365 + yoe div 4 - yoe div 100 + doy
      in era * 146097 + doe - 719468)"

text \<open>ECMAScript's \<^verbatim>\<open>MakeDay(year, month, date)\<close>, the month counted from 0 and carried.\<close>

definition MakeDay :: "int \<Rightarrow> int \<Rightarrow> int \<Rightarrow> int" where
  "MakeDay y m0 dt = daysFromCivil (y + m0 div 12) (m0 mod 12 + 1) 1 + dt - 1"

definition utc_addDays :: "Date \<Rightarrow> int \<Rightarrow> Date" where
  "utc_addDays d n = d + n * msPerDay"

definition utc_addWeeks :: "Date \<Rightarrow> int \<Rightarrow> Date" where
  "utc_addWeeks d n = utc_addDays d (n * 7)"

text \<open>\<^verbatim>\<open>addMonths\<close> keeps the time of day and clamps the day to the target month's length.\<close>

definition utc_addMonths :: "Date \<Rightarrow> int \<Rightarrow> Date" where
  "utc_addMonths d n =
     (case civilFromDays (d div msPerDay) of
        (y, m, dayOfMonth) \<Rightarrow>
          let endOfDesiredMonth = MakeDay y (m - 1 + n + 1) 0
          in case civilFromDays endOfDesiredMonth of
               (y2, m2, daysInMonth) \<Rightarrow>
                 if daysInMonth \<le> dayOfMonth
                 then endOfDesiredMonth * msPerDay + d mod msPerDay
                 else MakeDay y2 (m2 - 1) dayOfMonth * msPerDay + d mod msPerDay)"

definition utc_add :: "Date \<Rightarrow> Duration \<Rightarrow> Date" where
  "utc_add d dur =
     (let dateWithMonths =
            (if months dur = 0 \<and> years dur = 0 then d
             else utc_addMonths d (months dur + years dur * 12));
          dateWithDays =
            (if days dur = 0 \<and> weeks dur = 0 then dateWithMonths
             else utc_addDays dateWithMonths (days dur + weeks dur * 7))
      in dateWithDays + (seconds dur + (minutes dur + hours dur * 60) * 60) * 1000)"

text \<open>
  \<^verbatim>\<open>eachDayOfInterval\<close> throws when the start is after the end; otherwise it lists the
  start of every day from the start's day up to the end.
\<close>

definition utc_eachDayOfInterval :: "Interval \<Rightarrow> Date list option" where
  "utc_eachDayOfInterval i =
     (if iend i < istart i then None
      else Some (map (\<lambda>k. (istart i div msPerDay + int k) * msPerDay)
                   [0 ..< nat (iend i div msPerDay - istart i div msPerDay + 1)]))"

definition utc_isSameDay :: "Date \<Rightarrow> Date \<Rightarrow> bool" where
  "utc_isSameDay a b = (a div msPerDay = b div msPerDay)"

definition utc_isSameMonth :: "Date \<Rightarrow> Date \<Rightarrow> bool" where
  "utc_isSameMonth a b =
     (case (civilFromDays (a div msPerDay), civilFromDays (b div msPerDay)) of
        ((y1, m1, _), (y2, m2, _)) \<Rightarrow> y1 = y2 \<and> m1 = m2)"

text \<open>Decimal digits, padded with zeros to a width (\<^verbatim>\<open>addLeadingZeros\<close>).\<close>

definition digitChar :: "nat \<Rightarrow> char" where
  "digitChar n = ''0123456789'' ! (n mod 10)"

fun digitsOf :: "nat \<Rightarrow> string" where
  "digitsOf n = (if n < 10 then [digitChar n] else digitsOf (n div 10) @ [digitChar n])"

declare digitsOf.simps [simp del]

definition addLeadingZeros :: "int \<Rightarrow> nat \<Rightarrow> string" where
  "addLeadingZeros v w =
     (let ds = digitsOf (nat \<bar>v\<bar>)
      in (if v < 0 then ''-'' else '''') @ replicate (w - length ds) (CHR ''0'') @ ds)"

text \<open>The year token prints the year of the era: year 0 is 1 BC.\<close>

fun formatTokens :: "int \<times> int \<times> int \<Rightarrow> string \<Rightarrow> string" where
  "formatTokens ymd (a # b # c # e # r) =
     (if [a, b, c, e] = ''yyyy'' then
        addLeadingZeros (if 0 < fst ymd then fst ymd else 1 - fst ymd) 4 @ formatTokens ymd r
      else if [a, b] = ''MM'' then
        addLeadingZeros (fst (snd ymd)) 2 @ formatTokens ymd (c # e # r)
      else if [a, b] = ''dd'' then
        addLeadingZeros (snd (snd ymd)) 2 @ formatTokens ymd (c # e # r)
      else a # formatTokens ymd (b # c # e # r))"
| "formatTokens ymd (a # b # r) =
     (if [a, b] = ''MM'' then addLeadingZeros (fst (snd ymd)) 2 @ formatTokens ymd r
      else if [a, b] = ''dd'' then addLeadingZeros (snd (snd ymd)) 2 @ formatTokens ymd r
      else a # formatTokens ymd (b # r))"
| "formatTokens ymd r = r"

definition utc_format :: "Date \<Rightarrow> string \<Rightarrow> string" where
  "utc_format d fmt = formatTokens (civilFromDays (d div msPerDay)) fmt"

text \<open>
  \<open>parse\<close>: a numeric token reads one up to its width of digits, a literal character
  must be matched, and no text may be left over. A year resets the date to 1 January of
  that year, a month to the first of that month, a day is checked against the month's
  length; a field the pattern does not set comes from the reference date.
\<close>

definition digitValue :: "char \<Rightarrow> nat option" where
  "digitValue c = (if c \<in> set ''0123456789'' then Some (of_char c - 48) else None)"

fun readDigits :: "nat \<Rightarrow> string \<Rightarrow> nat \<Rightarrow> nat \<times> string" where
  "readDigits 0 t acc = (acc, t)"
| "readDigits (Suc w) [] acc = (acc, [])"
| "readDigits (Suc w) (c # t) acc =
     (case digitValue c of
        None \<Rightarrow> (acc, c # t)
      | Some v \<Rightarrow> readDigits w t (acc * 10 + v))"

definition readNumber :: "nat \<Rightarrow> string \<Rightarrow> (int \<times> string) option" where
  "readNumber w t =
     (case t of
        [] \<Rightarrow> None
      | c # _ \<Rightarrow>
          (case digitValue c of
             None \<Rightarrow> None
           | Some _ \<Rightarrow> (case readDigits w t 0 of (v, rest) \<Rightarrow> Some (int v, rest))))"

record ParsedFields =
  p_year :: "int option"
  p_month :: "int option"
  p_day :: "int option"

fun parseTokens :: "string \<Rightarrow> string \<Rightarrow> ParsedFields \<Rightarrow> ParsedFields option" where
  "parseTokens (a # b # c # e # r) t flds =
     (if [a, b, c, e] = ''yyyy'' then
        (case readNumber 4 t of
           None \<Rightarrow> None
         | Some (v, t') \<Rightarrow> parseTokens r t' (flds\<lparr>p_year := Some v\<rparr>))
      else if [a, b] = ''MM'' then
        (case readNumber 2 t of
           None \<Rightarrow> None
         | Some (v, t') \<Rightarrow> parseTokens (c # e # r) t' (flds\<lparr>p_month := Some v\<rparr>))
      else if [a, b] = ''dd'' then
        (case readNumber 2 t of
           None \<Rightarrow> None
         | Some (v, t') \<Rightarrow> parseTokens (c # e # r) t' (flds\<lparr>p_day := Some v\<rparr>))
      else
        (case t of
           [] \<Rightarrow> None
         | x # t' \<Rightarrow> if x = a then parseTokens (b # c # e # r) t' flds else None))"
| "parseTokens (a # b # r) t flds =
     (if [a, b] = ''MM'' then
        (case readNumber 2 t of
           None \<Rightarrow> None
         | Some (v, t') \<Rightarrow> parseTokens r t' (flds\<lparr>p_month := Some v\<rparr>))
      else if [a, b] = ''dd'' then
        (case readNumber 2 t of
           None \<Rightarrow> None
         | Some (v, t') \<Rightarrow> parseTokens r t' (flds\<lparr>p_day := Some v\<rparr>))
      else
        (case t of
           [] \<Rightarrow> None
         | x # t' \<Rightarrow> if x = a then parseTokens (b # r) t' flds else None))"
| "parseTokens [a] t flds =
     (case t of
        [] \<Rightarrow> None
      | x # t' \<Rightarrow> if x = a then parseTokens [] t' flds else None)"
| "parseTokens [] t flds = (if t = [] then Some flds else None)"

definition daysInMonth :: "int \<Rightarrow> int \<Rightarrow> int" where
  "daysInMonth y m = MakeDay y m 1 - MakeDay y (m - 1) 1"

definition utc_parse :: "string \<Rightarrow> string \<Rightarrow> Date \<Rightarrow> Date option" where
  "utc_parse t fmt ref =
     (case parseTokens fmt t \<lparr>p_year = None, p_month = None, p_day = None\<rparr> of
        None \<Rightarrow> None
      | Some flds \<Rightarrow>
          if p_year flds = None \<and> p_month flds = None \<and> p_day flds = None then Some ref
          else
            (case civilFromDays (ref div msPerDay) of
               (y0, m0, d0) \<Rightarrow>
                 let y = (case p_year flds of Some v \<Rightarrow> v | None \<Rightarrow> y0);
                     m1 = (case p_year flds of Some v \<Rightarrow> 1 | None \<Rightarrow> m0);
                     d1 = (case p_year flds of Some v \<Rightarrow> 1 | None \<Rightarrow> d0);
                     m = (case p_month flds of Some v \<Rightarrow> v | None \<Rightarrow> m1);
                     d2 = (case p_month flds of Some v \<Rightarrow> 1 | None \<Rightarrow> d1);
                     d = (case p_day flds of Some v \<Rightarrow> v | None \<Rightarrow> d2)
                 in if m < 1 \<or> 12 < m \<or> d < 1 \<or> daysInMonth y m < d then None
                    else Some (daysFromCivil y m d * msPerDay)))"

text \<open>
  Modelled from the spec: \<^verbatim>\<open>getPickerMonths\<close> of \<^verbatim>\<open>./useDatePicker.utils\<close>, a module
  that is not available. Section 4.5: the window is \<open>numberOfMonths\<close> consecutive months
  starting at the month that contains the anchor date. Padding months are left out, and
  without an anchor the window is empty.
\<close>

definition getPickerMonths_spec :: "GetPickerMonthsArgs \<Rightarrow> TPickerMonth list" where
  "getPickerMonths_spec a =
     (case g_startDate a of
        None \<Rightarrow> []
      | Some anchor \<Rightarrow>
          (case civilFromDays (anchor div msPerDay) of
             (y, m, _) \<Rightarrow>
               map (\<lambda>k. \<lparr>month = \<lparr>date = MakeDay y (m - 1 + int k) 1 * msPerDay\<rparr>,
                          isPadding = False\<rparr>)
                 [0 ..< nat (g_numberOfMonths a)]))"

text \<open>
  Modelled from the spec: \<^verbatim>\<open>validateDates\<close> of \<^verbatim>\<open>./useDatePicker.utils\<close>, a module
  that is not available. Section 4.1: a range with no endpoint or with one endpoint is
  always valid for commit; a range with both endpoints is rejected when its end precedes
  its start (section 8), when an endpoint is earlier than the day before \<open>minDate\<close> or
  later than \<open>maxDate\<close>, when the span is not strictly greater than \<open>minDateRange\<close> or is
  strictly greater than \<open>maxDateRange\<close>, and when a day of the interval is blocked.
\<close>

definition validateDates_spec :: "ValidateDatesArgs \<Rightarrow> bool" where
  "validateDates_spec a =
     (case (v_start a, v_end a) of
        (Some s, Some e) \<Rightarrow>
          s \<le> e \<and>
          (case v_minDate a of Null \<Rightarrow> True | DateValue m \<Rightarrow> utc_addDays m (- 1) \<le> s) \<and>
          (case v_maxDate a of Null \<Rightarrow> True | DateValue m \<Rightarrow> e \<le> m) \<and>
          (case v_minDateRange a of None \<Rightarrow> True | Some r \<Rightarrow> utc_add s r < e) \<and>
          (case v_maxDateRange a of None \<Rightarrow> True | Some r \<Rightarrow> e \<le> utc_add s r) \<and>
          (case utc_eachDayOfInterval \<lparr>istart = s, iend = e\<rparr> of
             None \<Rightarrow> False
           | Some ds \<Rightarrow> list_all (\<lambda>d. v_isDisabled a d = False) ds)
      | _ \<Rightarrow> True)"

definition utc :: Imports where
  "utc =
     \<lparr>add = utc_add,
      addDays = utc_addDays,
      addWeeks = utc_addWeeks,
      addMonths = utc_addMonths,
      eachDayOfInterval = utc_eachDayOfInterval,
      isAfter = (\<lambda>a b. b < a),
      isBefore = (\<lambda>a b. a < b),
      isSameDay = utc_isSameDay,
      isSameMonth = utc_isSameMonth,
      format = utc_format,
      parse = utc_parse,
      getPickerMonths = getPickerMonths_spec,
      validateDates = validateDates_spec\<rparr>"

subsection \<open>Example values\<close>

text \<open>Midnight (UTC) of a calendar date.\<close>

definition day :: "int \<Rightarrow> int \<Rightarrow> int \<Rightarrow> Date" where
  "day y m d = daysFromCivil y m d * msPerDay"

text \<open>
  The props of a caller that passes \<^verbatim>\<open>minDate: null\<close> and leaves every other option to
  its default.
\<close>

definition plainProps :: UseDatePickerProps where
  "plainProps =
     \<lparr>startDate = Null,
      endDate = Null,
      minDate = Null,
      maxDate = Null,
      initialVisibleMonth = None,
      fixRange = None,
      minDateRange = None,
      maxDateRange = None,
      numberOfMonths = 2,
      firstDayOfWeek = 1,
      unavailableDates = DateArray [],
      inputFormat = ''dd/MM/yyyy'',
      padding = None\<rparr>"

text \<open>The state in which the start \<open>d\<close> is committed and the end is being picked.\<close>

definition pickingEnd :: "Date \<Rightarrow> PickerState" where
  "pickingEnd d =
     (initialState plainProps)
       \<lparr>dateRange := \<lparr>start = Some d, end' = None\<rparr>, activeSelection := ActiveSelection_end\<rparr>"

text \<open>The state in which both ends are committed and nothing is being picked.\<close>

definition idle :: "Date \<Rightarrow> Date \<Rightarrow> PickerState" where
  "idle a b =
     (initialState plainProps)
       \<lparr>dateRange := \<lparr>start = Some a, end' = Some b\<rparr>, activeSelection := ActiveSelection_none\<rparr>"

text \<open>
  An endpoint that the default format \<^verbatim>\<open>dd/MM/yyyy\<close> can represent: absent, or the
  midnight of a day of the years 1 to 9999.
\<close>

definition plainDay :: "Date option \<Rightarrow> bool" where
  "plainDay x =
     (case x of
        None \<Rightarrow> True
      | Some dt \<Rightarrow>
          dt mod msPerDay = 0 \<and>
          1 \<le> fst (civilFromDays (dt div msPerDay)) \<and>
          fst (civilFromDays (dt div msPerDay)) \<le> 9999)"

text \<open>The keyboard of the examples: 3 January 2020 is focused, no key has been pressed.\<close>

definition focusedKeyboard :: Keyboard where
  "focusedKeyboard =
     \<lparr>picker = (pickingEnd (day 2020 1 1))\<lparr>focusedDate := Some (day 2020 1 3)\<rparr>,
      throttle = freshThrottle\<rparr>"

text \<open>The props of the examples: a blocked day, a latest date, a fixed range.\<close>

definition blockedProps :: UseDatePickerProps where
  "blockedProps = plainProps\<lparr>unavailableDates := DateArray [day 2020 1 5]\<rparr>"

definition maxProps :: UseDatePickerProps where
  "maxProps =
     plainProps\<lparr>maxDate := DateValue (day 2020 1 10),
                 unavailableDates := DateArray [day 2020 1 15]\<rparr>"

definition threeDays :: Duration where
  "threeDays =
     \<lparr>years = 0, months = 0, weeks = 0, days = 3, hours = 0, minutes = 0, seconds = 0\<rparr>"

definition fixProps :: UseDatePickerProps where
  "fixProps = plainProps\<lparr>fixRange := Some threeDays\<rparr>"

definition seededProps :: UseDatePickerProps where
  "seededProps = plainProps\<lparr>startDate := DateValue (day 2020 1 1)\<rparr>"

section \<open>Theorems\<close>

subsection \<open>Facts about the commit path\<close>

lemma onDateSelect_invalid:
  "\<not> validateDates I (validateArgs I props r) \<Longrightarrow>
   onDateSelect I props snap r sync pending = pending"
  by (simp add: onDateSelect_def)

lemma onDateSelect_valid_calls:
  "validateDates I (validateArgs I props r) \<Longrightarrow>
   onDatesChangeCalls (onDateSelect I props snap r sync pending) =
     onDatesChangeCalls pending @
       [\<lparr>cb_startDate = orNull (start r), cb_endDate = orNull (end' r)\<rparr>]"
  by (simp add: onDateSelect_def Let_def)

lemma onDateSelect_valid_range:
  "validateDates I (validateArgs I props r) \<Longrightarrow>
   dateRange (onDateSelect I props snap r sync pending) = r"
  by (simp add: onDateSelect_def Let_def)

lemma onDateSelect_valid_selection:
  "validateDates I (validateArgs I props r) \<Longrightarrow>
   activeSelection (onDateSelect I props snap r sync pending) =
     (if activeSelection snap = ActiveSelection_end \<and> start r \<noteq> None
      then ActiveSelection_none else ActiveSelection_end)"
  by (simp add: onDateSelect_def Let_def)

lemma onDateSelect_dateRange:
  "dateRange (onDateSelect I props snap r sync pending) =
     (if validateDates I (validateArgs I props r) then r else dateRange pending)"
  by (simp add: onDateSelect_invalid onDateSelect_valid_range)

lemma onChange_dateRange:
  "dateRange (onChange I props s type text now) =
     (case parse I text (inputFormat props) now of
        None \<Rightarrow> dateRange s
      | Some dt \<Rightarrow>
          if type = ActiveSelection_start
          then (if validateDates I (validateArgs I props ((dateRange s)\<lparr>start := Some dt\<rparr>))
                then (dateRange s)\<lparr>start := Some dt\<rparr> else dateRange s)
          else (if validateDates I (validateArgs I props ((dateRange s)\<lparr>end' := Some dt\<rparr>))
                then (dateRange s)\<lparr>end' := Some dt\<rparr> else dateRange s))"
  by (simp add: onChange_def Let_def onDateSelect_dateRange split: option.splits)

subsection \<open>Facts about the input texts\<close>

text \<open>
  When the two texts of a range parse to its endpoints, typing them into the inputs, the
  start first, leaves the committed range as it was: a text that does not parse changes
  nothing, and one that parses asks to commit the range that is committed already.
\<close>

lemma onChange_texts_read_back:
  assumes p1: "parse I (input_start (getInputValuesFromRange I props (dateRange s)))
           (inputFormat props) now1 = start (dateRange s)"
    and p2: "parse I (input_end (getInputValuesFromRange I props (dateRange s)))
           (inputFormat props) now2 = end' (dateRange s)"
  shows "dateRange
           (onChange I props
              (onChange I props s ActiveSelection_start
                 (input_start (getInputValuesFromRange I props (dateRange s))) now1)
              ActiveSelection_end
              (input_end (getInputValuesFromRange I props (dateRange s))) now2) =
           dateRange s"
proof -
  let ?t = "getInputValuesFromRange I props (dateRange s)"
  let ?s1 = "onChange I props s ActiveSelection_start (input_start ?t) now1"
  have r1: "dateRange ?s1 = dateRange s"
  proof (cases "start (dateRange s)")
    case None
    with p1 show ?thesis by (simp add: onChange_dateRange)
  next
    case (Some d)
    then have same: "(dateRange s)\<lparr>start := Some d\<rparr> = dateRange s" by simp
    from p1 Some show ?thesis by (simp add: onChange_dateRange same)
  qed
  show ?thesis
  proof (cases "end' (dateRange s)")
    case None
    with p2 r1 show ?thesis by (simp add: onChange_dateRange)
  next
    case (Some d)
    then have same: "(dateRange s)\<lparr>end' := Some d\<rparr> = dateRange s" by simp
    from p2 Some show ?thesis
      unfolding onChange_dateRange [of I props ?s1] r1 by (simp add: same)
  qed
qed


lemma onChange_texts_from_empty:
  assumes empty: "dateRange s = \<lparr>start = None, end' = None\<rparr>"
    and p1: "parse I (input_start (getInputValuesFromRange I props r))
           (inputFormat props) now1 = start r"
    and p2: "parse I (input_end (getInputValuesFromRange I props r))
           (inputFormat props) now2 = end' r"
    and ok_start: "start r \<noteq> None \<Longrightarrow>
           validateDates I (validateArgs I props \<lparr>start = start r, end' = None\<rparr>)"
    and ok_end: "end' r \<noteq> None \<Longrightarrow> validateDates I (validateArgs I props r)"
  shows "dateRange
           (onChange I props
              (onChange I props s ActiveSelection_start
                 (input_start (getInputValuesFromRange I props r)) now1)
              ActiveSelection_end
              (input_end (getInputValuesFromRange I props r)) now2) = r"
proof -
  let ?t = "getInputValuesFromRange I props r"
  let ?s1 = "onChange I props s ActiveSelection_start (input_start ?t) now1"
  have r1: "dateRange ?s1 = \<lparr>start = start r, end' = None\<rparr>"
  proof (cases "start r")
    case None
    with p1 empty show ?thesis by (simp add: onChange_dateRange)
  next
    case (Some a)
    with ok_start have "validateDates I (validateArgs I props \<lparr>start = Some a, end' = None\<rparr>)"
      by simp
    with p1 Some empty show ?thesis by (simp add: onChange_dateRange)
  qed
  show ?thesis
  proof (cases "end' r")
    case None
    then have "\<lparr>start = start r, end' = None\<rparr> = r" by (cases r) simp
    with p2 None r1 show ?thesis by (simp add: onChange_dateRange)
  next
    case (Some b)
    then have whole: "\<lparr>start = start r, end' = Some b\<rparr> = r" by (cases r) simp
    from Some ok_end have "validateDates I (validateArgs I props r)" by simp
    with p2 Some show ?thesis
      unfolding onChange_dateRange [of I props ?s1] r1 by (simp add: whole)
  qed
qed

subsection \<open>Facts about the keyboard\<close>

lemma keyDownBody_other_key:
  assumes "focusedDate s = Some d" and "key \<notin> set navigationKeys"
  shows "focusedDate (keyDownBody I s key) = None"
  using assms by (simp add: keyDownBody_def navigationKeys_def)

subsection \<open>Facts about hovering\<close>

text \<open>
  The four \<^verbatim>\<open>if\<close> statements of \<^verbatim>\<open>onDateHover\<close> as one chain. The minimum-date check
  has no \<^verbatim>\<open>!validationError\<close> guard and overwrites a blocked-date error; the
  maximum-date and fixed-range checks are guarded and leave it.
\<close>

lemma hoverError_first_match:
  "hoverError I props s dt =
     (if lessThanMinDate I props dt then Some LESS_THAN_MIN_DATE
      else if isDisabled I props dt then Some BLOCKED_DATE
      else if greaterThanMaxDate I props dt then Some GREATER_THAN_MAX_DATE
      else if (case fixRange props of
                 None \<Rightarrow> False
               | Some f \<Rightarrow> afterFixRange I f (start (dateRange s)) dt \<or>
                           afterFixRange I f (end' (dateRange s)) dt)
           then Some VIOLATES_FIX_RANGE
      else None)"
  by (simp add: hoverError_def Let_def split: option.splits)

lemma formRange_Some_iff:
  "formRange s dt = Some r \<longleftrightarrow>
     (activeSelection s = ActiveSelection_end \<and>
        (\<exists>a. start (dateRange s) = Some a \<and> a < dt \<and> r = \<lparr>istart = a, iend = dt\<rparr>)) \<or>
     (activeSelection s = ActiveSelection_start \<and>
        (\<exists>b. end' (dateRange s) = Some b \<and> dt < b \<and> r = \<lparr>istart = dt, iend = b\<rparr>))"
  by (auto simp: formRange_def Let_def split: option.splits)

lemma formRange_None_iff:
  "formRange s dt = None \<longleftrightarrow>
     \<not> ((activeSelection s = ActiveSelection_end \<and>
           (\<exists>a. start (dateRange s) = Some a \<and> a < dt)) \<or>
        (activeSelection s = ActiveSelection_start \<and>
           (\<exists>b. end' (dateRange s) = Some b \<and> dt < b)))"
  by (auto simp: formRange_def Let_def split: option.splits)

text \<open>
  The two early returns of \<^verbatim>\<open>calculatePotentialRange\<close> are subsumed by the third: with
  no committed endpoint, or with \<^verbatim>\<open>ActiveSelection.none\<close>, no range is formed either.
\<close>

lemma calculatePotentialRange_cases:
  "calculatePotentialRange I props s (Some dt) =
     (case formRange s dt of
        None \<Rightarrow> Some (s\<lparr>potentialRange := None\<rparr>)
      | Some r \<Rightarrow>
          (case rangeError I props r of
             None \<Rightarrow> None
           | Some e \<Rightarrow> Some (s\<lparr>potentialRange := Some \<lparr>range' = r, error = toError e\<rparr>\<rparr>)))"
  by (auto simp: calculatePotentialRange_def formRange_def Let_def split: option.splits)

text \<open>
  What the third check of \<^verbatim>\<open>calculatePotentialRange\<close> computes, for a range that passes
  the minimum-range and maximum-range checks: the error is set when no day of the
  interval is blocked, and left empty when one is.
\<close>

lemma rangeError_blocked_check:
  assumes "case minDateRange props of
             None \<Rightarrow> True
           | Some m \<Rightarrow> isAfter I (iend r) (add I (istart r) m)"
    and "case maxDateRange props of
           None \<Rightarrow> True
         | Some m \<Rightarrow> \<not> isAfter I (iend r) (add I (istart r) m)"
    and "eachDayOfInterval I r = Some ds"
  shows "rangeError I props r =
           Some (if list_ex (isDisabled I props) ds then None else Some CONTAINS_BLOCKED_DATE)"
  using assms by (auto simp: rangeError_def Let_def split: option.splits)

lemma formRange_frame: "formRange (s\<lparr>potentialRange := p\<rparr>) dt = formRange s dt"
  by (simp add: formRange_def Let_def cong: option.case_cong if_cong)

lemma formRange_depends:
  "dateRange s = dateRange t \<Longrightarrow> activeSelection s = activeSelection t \<Longrightarrow>
   formRange s dt = formRange t dt"
  by (simp add: formRange_def Let_def cong: option.case_cong if_cong)

lemma calculatePotentialRange_again:
  "calculatePotentialRange I props s x = Some s' \<Longrightarrow>
   calculatePotentialRange I props s' x = Some s'"
  by (cases x)
    (auto simp: calculatePotentialRange_cases formRange_frame calculatePotentialRange_def
      split: option.splits if_splits)

text \<open>
  \<^verbatim>\<open>calculatePotentialRange\<close> hands \<^verbatim>\<open>eachDayOfInterval\<close> an interval whose start is
  before its end, so it returns whenever \<^verbatim>\<open>eachDayOfInterval\<close> accepts such intervals,
  as the concrete calendar does.
\<close>

lemma calculatePotentialRange_returns:
  assumes "\<And>r. istart r < iend r \<Longrightarrow> eachDayOfInterval I r \<noteq> None"
  shows "calculatePotentialRange I props s x \<noteq> None"
proof (cases x)
  case None
  then show ?thesis by (simp add: calculatePotentialRange_def)
next
  case (Some dt)
  show ?thesis
  proof (cases "formRange s dt")
    case None
    with Some show ?thesis by (simp add: calculatePotentialRange_cases)
  next
    case (Some r)
    then have "istart r < iend r"
      using formRange_Some_iff [of s dt r] by auto
    then have "eachDayOfInterval I r \<noteq> None" by (rule assms)
    then have "rangeError I props r \<noteq> None"
      by (auto simp: rangeError_def Let_def split: option.splits)
    with Some \<open>x = Some dt\<close> show ?thesis
      by (auto simp: calculatePotentialRange_cases)
  qed
qed

lemma calculatePotentialRange_utc_returns:
  "calculatePotentialRange utc props s x \<noteq> None"
  by (rule calculatePotentialRange_returns) (simp add: utc_def utc_eachDayOfInterval_def)

lemma potentialRange_update_neq:
  "s\<lparr>potentialRange := Some pr\<rparr> \<noteq> s\<lparr>potentialRange := None\<rparr>"
proof
  assume "s\<lparr>potentialRange := Some pr\<rparr> = s\<lparr>potentialRange := None\<rparr>"
  then have "potentialRange (s\<lparr>potentialRange := Some pr\<rparr>) =
      potentialRange (s\<lparr>potentialRange := None\<rparr>)"
    by (rule arg_cong)
  then show False by simp
qed

subsection \<open>The calendar reads back what it writes\<close>

text \<open>
  The date of a day number determines the day number, its month and day are in range,
  and the day lies before the first of the next month.
\<close>

lemma daysFromCivil_march_based:
  assumes "0 \<le> yoe" "yoe < 400" "0 \<le> mp" "mp \<le> 11"
  shows "daysFromCivil (yoe + era * 400 + (if mp < 10 then 0 else 1))
           (if mp < 10 then mp + 3 else mp - 9) d =
         era * 146097 + (yoe * 365 + yoe div 4 - yoe div 100) + (153 * mp + 2) div 5 + d - 1 - 719468"
proof -
  have e: "(yoe + era * 400) div 400 = era" "yoe mod 400 = yoe"
    using assms(1,2) by simp_all
  show ?thesis
    using assms(3,4) by (simp add: daysFromCivil_def Let_def e)
qed

lemma yearOfEra_props:
  assumes "0 \<le> doe" "doe < 146097"
  obtains yoe doy where
    "yearOfEra doe = (yoe, doy)" "0 \<le> yoe" "yoe < 400" "0 \<le> doy" "doy \<le> 365"
    "doe = yoe * 365 + yoe div 4 - yoe div 100 + doy"
    "yoe < 399 \<Longrightarrow> doe < (yoe + 1) * 365 + (yoe + 1) div 4 - (yoe + 1) div 100"
proof -
  define c where "c = min (doe div 36524) 3"
  define dc where "dc = doe - 36524 * c"
  define q where "q = dc div 1461"
  define dq where "dq = dc mod 1461"
  define yc where "yc = min (dq div 365) 3"
  define doy where "doy = dq - 365 * yc"
  define yoe where "yoe = 100 * c + 4 * q + yc"
  have val: "yearOfEra doe = (yoe, doy)"
    unfolding yearOfEra_def Let_def yoe_def doy_def yc_def dq_def q_def dc_def c_def ..
  have c: "0 \<le> c" "c \<le> 3"
    using assms(1) by (simp_all add: c_def)
  have dc: "0 \<le> dc" "dc \<le> 36524" "c < 3 \<Longrightarrow> dc < 36524"
    using assms unfolding dc_def c_def by linarith+
  have q: "0 \<le> q" "q \<le> 24"
    using dc(1,2) unfolding q_def by linarith+
  have dq: "0 \<le> dq" "dq < 1461" "dc = 1461 * q + dq"
    by (simp_all add: dq_def q_def)
  have dq24: "dq < 1460" if "q = 24" "c < 3"
    using dc(3) [OF that(2)] that(1) dq(3) by simp
  have yc: "0 \<le> yc" "yc \<le> 3"
    using dq(1) by (simp_all add: yc_def)
  have doy: "0 \<le> doy" "doy \<le> 365" "yc < 3 \<Longrightarrow> doy < 365" "dq < 1460 \<Longrightarrow> doy < 365"
    using dq(1,2) unfolding doy_def yc_def by linarith+
  have yoe: "0 \<le> yoe" "yoe < 400"
    using c q yc by (simp_all add: yoe_def)
  have yoe4: "yoe div 4 = 25 * c + q"
    using yc unfolding yoe_def by linarith
  have yoe100: "yoe div 100 = c"
    using yc q unfolding yoe_def by linarith
  have ystart: "yoe * 365 + yoe div 4 - yoe div 100 = 36524 * c + 1461 * q + 365 * yc"
    unfolding yoe4 yoe100 by (simp add: yoe_def)
  have doe_eq: "doe = yoe * 365 + yoe div 4 - yoe div 100 + doy"
    unfolding ystart using dq(3) by (simp add: dc_def doy_def)
  have next_year: "doe < (yoe + 1) * 365 + (yoe + 1) div 4 - (yoe + 1) div 100" if lt: "yoe < 399"
  proof -
    have "yc < 3 \<or> (yc = 3 \<and> q < 24) \<or> (yc = 3 \<and> q = 24 \<and> c < 3)"
      using lt yc q c unfolding yoe_def by arith
    then consider (inner) "yc < 3" | (cycle) "yc = 3" "q < 24" | (century) "yc = 3" "q = 24" "c < 3"
      by blast
    then show ?thesis
    proof cases
      case inner
      have "(yoe + 1) div 4 = 25 * c + q" "(yoe + 1) div 100 = c"
        using inner yc q unfolding yoe_def by linarith+
      then show ?thesis
        using doy(3) [OF inner] doe_eq unfolding yoe4 yoe100 by simp
    next
      case cycle
      have "(yoe + 1) div 4 = 25 * c + q + 1" "(yoe + 1) div 100 = c"
        using cycle q unfolding yoe_def by linarith+
      then show ?thesis
        using doy(2) doe_eq unfolding yoe4 yoe100 by simp
    next
      case century
      have "(yoe + 1) div 4 = 25 * c + 25" "(yoe + 1) div 100 = c + 1"
        using century unfolding yoe_def by linarith+
      moreover have "doy < 365"
        using dq24 [OF century(2,3)] by (rule doy(4))
      ultimately show ?thesis
        using century(1,2) doe_eq unfolding yoe4 yoe100 by (simp add: yoe_def)
    qed
  qed
  show thesis
    using that [OF val yoe doy(1,2) doe_eq next_year] by blast
qed

lemma monthOfYear_props:
  assumes "0 \<le> doy" "doy \<le> 365"
  obtains mp dd where
    "monthOfYear doy = (mp, dd)" "0 \<le> mp" "mp \<le> 11" "0 \<le> dd"
    "doy = (153 * mp + 2) div 5 + dd" "doy < (153 * (mp + 1) + 2) div 5"
proof -
  define mp where "mp = (5 * doy + 2) div 153"
  define dd where "dd = doy - (153 * mp + 2) div 5"
  have val: "monthOfYear doy = (mp, dd)"
    unfolding monthOfYear_def Let_def dd_def mp_def ..
  have mp: "0 \<le> mp" "mp \<le> 11"
    using assms unfolding mp_def by linarith+
  have dd: "0 \<le> dd" "doy = (153 * mp + 2) div 5 + dd"
    unfolding dd_def mp_def by linarith+
  have "5 * doy + 2 < 153 * mp + 153"
    unfolding mp_def by linarith
  then have "5 * (doy + 1) \<le> 153 * (mp + 1) + 2"
    by simp
  then have "(5 * (doy + 1)) div 5 \<le> (153 * (mp + 1) + 2) div 5"
    by (rule zdiv_mono1) simp
  then have next_month: "doy < (153 * (mp + 1) + 2) div 5"
    by simp
  show thesis
    using that [OF val mp dd next_month] by blast
qed

lemma civilFromDays_inverse:
  assumes "civilFromDays z = (y, m, d)"
  shows "daysFromCivil y m d = z \<and> 1 \<le> m \<and> m \<le> 12 \<and> 1 \<le> d \<and> d \<le> 31 \<and>
         z < daysFromCivil (y + m div 12) (m mod 12 + 1) 1"
proof -
  define zz where "zz = z + 719468"
  define era where "era = zz div 146097"
  define doe where "doe = zz mod 146097"
  have doe: "0 \<le> doe" "doe < 146097" "zz = era * 146097 + doe"
    by (simp_all add: doe_def era_def)
  from yearOfEra_props [OF doe(1,2)] obtain yoe doy where
    yr: "yearOfEra doe = (yoe, doy)" "0 \<le> yoe" "yoe < 400" "0 \<le> doy" "doy \<le> 365"
      "doe = yoe * 365 + yoe div 4 - yoe div 100 + doy"
      "yoe < 399 \<Longrightarrow> doe < (yoe + 1) * 365 + (yoe + 1) div 4 - (yoe + 1) div 100"
    by blast
  from monthOfYear_props [OF yr(4,5)] obtain mp dd where
    mo: "monthOfYear doy = (mp, dd)" "0 \<le> mp" "mp \<le> 11" "0 \<le> dd"
      "doy = (153 * mp + 2) div 5 + dd" "doy < (153 * (mp + 1) + 2) div 5"
    by blast
  have civ: "civilFromDays z =
      (yoe + era * 400 + (if mp < 10 then 0 else 1), if mp < 10 then mp + 3 else mp - 9, dd + 1)"
    using mo(2,3)
    by (simp add: civilFromDays_def Let_def zz_def [symmetric] era_def [symmetric]
        doe_def [symmetric] yr(1) mo(1))
  with assms have y: "y = yoe + era * 400 + (if mp < 10 then 0 else 1)"
    and m: "m = (if mp < 10 then mp + 3 else mp - 9)" and d: "d = dd + 1"
    by simp_all
  have z: "z + 719468 = era * 146097 + (yoe * 365 + yoe div 4 - yoe div 100) +
      (153 * mp + 2) div 5 + dd"
    using doe(3) yr(6) mo(5) by (simp add: zz_def)
  have inv: "daysFromCivil y m d = z"
    unfolding y m d daysFromCivil_march_based [OF yr(2,3) mo(2,3)] using z by simp
  have m_bounds: "1 \<le> m" "m \<le> 12"
    using mo(2,3) by (simp_all add: m)
  have "mp = 0 \<or> mp = 1 \<or> mp = 2 \<or> mp = 3 \<or> mp = 4 \<or> mp = 5 \<or> mp = 6 \<or> mp = 7 \<or>
      mp = 8 \<or> mp = 9 \<or> mp = 10 \<or> mp = 11"
    using mo(2,3) by presburger
  then have "dd \<le> 30"
    using mo(5,6) by (elim disjE) simp_all
  with mo(4) have d_bounds: "1 \<le> d" "d \<le> 31"
    by (simp_all add: d)
  have nxt: "z < daysFromCivil (y + m div 12) (m mod 12 + 1) 1"
  proof -
    consider (same) "mp \<le> 8" | (dec) "mp = 9" | (jan) "mp = 10" | (feb) "mp = 11"
      using mo(2,3) by linarith
    then show ?thesis
    proof cases
      case same
      then have "daysFromCivil (y + m div 12) (m mod 12 + 1) 1 =
          daysFromCivil (yoe + era * 400 + (if mp + 1 < 10 then 0 else 1))
            (if mp + 1 < 10 then mp + 1 + 3 else mp + 1 - 9) 1"
        using mo(2) by (simp add: y m)
      also have "\<dots> = era * 146097 + (yoe * 365 + yoe div 4 - yoe div 100) +
          (153 * (mp + 1) + 2) div 5 + 1 - 1 - 719468"
        using same mo(2) by (intro daysFromCivil_march_based yr(2,3)) simp_all
      finally show ?thesis using z mo(5,6) by simp
    next
      case dec
      then have "daysFromCivil (y + m div 12) (m mod 12 + 1) 1 =
          daysFromCivil (yoe + era * 400 + (if (10::int) < 10 then 0 else 1))
            (if (10::int) < 10 then 10 + 3 else 10 - 9) 1"
        by (simp add: y m)
      also have "\<dots> = era * 146097 + (yoe * 365 + yoe div 4 - yoe div 100) +
          (153 * 10 + 2) div 5 + 1 - 1 - 719468"
        by (intro daysFromCivil_march_based yr(2,3)) simp_all
      finally show ?thesis using z mo(5,6) dec by simp
    next
      case jan
      then have "daysFromCivil (y + m div 12) (m mod 12 + 1) 1 =
          daysFromCivil (yoe + era * 400 + (if (11::int) < 10 then 0 else 1))
            (if (11::int) < 10 then 11 + 3 else 11 - 9) 1"
        by (simp add: y m)
      also have "\<dots> = era * 146097 + (yoe * 365 + yoe div 4 - yoe div 100) +
          (153 * 11 + 2) div 5 + 1 - 1 - 719468"
        by (intro daysFromCivil_march_based yr(2,3)) simp_all
      finally show ?thesis using z mo(5,6) jan by simp
    next
      case feb
      show ?thesis
      proof (cases "yoe < 399")
        case True
        have "daysFromCivil (y + m div 12) (m mod 12 + 1) 1 =
            daysFromCivil (yoe + 1 + era * 400 + (if (0::int) < 10 then 0 else 1))
              (if (0::int) < 10 then 0 + 3 else 0 - 9) 1"
          using feb by (simp add: y m algebra_simps)
        also have "\<dots> = era * 146097 + ((yoe + 1) * 365 + (yoe + 1) div 4 - (yoe + 1) div 100) +
            (153 * 0 + 2) div 5 + 1 - 1 - 719468"
          using True yr(2) by (intro daysFromCivil_march_based) simp_all
        finally show ?thesis using doe(3) yr(7) [OF True] by (simp add: zz_def)
      next
        case False
        with yr(3) have yoe: "yoe = 399" by simp
        have "daysFromCivil (y + m div 12) (m mod 12 + 1) 1 =
            daysFromCivil (0 + (era + 1) * 400 + (if (0::int) < 10 then 0 else 1))
              (if (0::int) < 10 then 0 + 3 else 0 - 9) 1"
          using feb by (simp add: y m yoe algebra_simps)
        also have "\<dots> = (era + 1) * 146097 + (0 * 365 + 0 div 4 - 0 div 100) +
            (153 * 0 + 2) div 5 + 1 - 1 - 719468"
          by (intro daysFromCivil_march_based) simp_all
        finally show ?thesis using doe(2,3) by (simp add: zz_def)
      qed
    qed
  qed
  from inv m_bounds d_bounds nxt show ?thesis by simp
qed

lemma replicate_2: "replicate 2 x = [x, x]"
  by (simp add: numeral_2_eq_2)

lemma replicate_3: "replicate 3 x = [x, x, x]"
  by (simp add: numeral_3_eq_3)

lemma four_eq: "(4::nat) = Suc (Suc (Suc (Suc 0)))"
  by simp

lemma digitValue_digitChar: "digitValue (digitChar n) = Some (n mod 10)"
proof -
  have "n mod 10 < 10" by simp
  then have "n mod 10 = 0 \<or> n mod 10 = 1 \<or> n mod 10 = 2 \<or> n mod 10 = 3 \<or> n mod 10 = 4 \<or>
      n mod 10 = 5 \<or> n mod 10 = 6 \<or> n mod 10 = 7 \<or> n mod 10 = 8 \<or> n mod 10 = 9"
    by presburger
  then show ?thesis
    by (elim disjE) (simp_all add: digitChar_def digitValue_def)
qed

lemma digitChar_0: "digitChar 0 = CHR ''0''"
  by (simp add: digitChar_def)

lemma digitsOf_1: "n < 10 \<Longrightarrow> digitsOf n = [digitChar n]"
  by (simp add: digitsOf.simps)

lemma digitsOf_2: "10 \<le> n \<Longrightarrow> n < 100 \<Longrightarrow> digitsOf n = [digitChar (n div 10), digitChar n]"
  by (subst digitsOf.simps) (simp add: digitsOf_1)

lemma digitsOf_3:
  "100 \<le> n \<Longrightarrow> n < 1000 \<Longrightarrow>
   digitsOf n = [digitChar (n div 100), digitChar (n div 10), digitChar n]"
  by (subst digitsOf.simps) (simp add: digitsOf_2 div_mult2_eq [symmetric])

lemma digitsOf_4:
  "1000 \<le> n \<Longrightarrow> n < 10000 \<Longrightarrow>
   digitsOf n = [digitChar (n div 1000), digitChar (n div 100), digitChar (n div 10), digitChar n]"
  by (subst digitsOf.simps) (simp add: digitsOf_3 div_mult2_eq [symmetric])

lemma addLeadingZeros_2:
  assumes "0 \<le> v" "v < 100"
  shows "addLeadingZeros v 2 = [digitChar (nat v div 10), digitChar (nat v)]"
proof (cases "nat v < 10")
  case True
  then show ?thesis
    using assms by (simp add: addLeadingZeros_def digitsOf_1 digitChar_0)
next
  case False
  then show ?thesis
    using assms by (simp add: addLeadingZeros_def digitsOf_2)
qed

lemma addLeadingZeros_4:
  assumes "0 \<le> v" "v < 10000"
  shows "addLeadingZeros v 4 =
     [digitChar (nat v div 1000), digitChar (nat v div 100), digitChar (nat v div 10),
      digitChar (nat v)]"
proof -
  consider "nat v < 10" | "10 \<le> nat v" "nat v < 100" | "100 \<le> nat v" "nat v < 1000"
    | "1000 \<le> nat v" "nat v < 10000"
    using assms by linarith
  then show ?thesis
  proof cases
    case 1
    then show ?thesis
      using assms by (simp add: addLeadingZeros_def digitsOf_1 digitChar_0 replicate_3)
  next
    case 2
    then show ?thesis
      using assms by (simp add: addLeadingZeros_def digitsOf_2 digitChar_0 replicate_2)
  next
    case 3
    then show ?thesis
      using assms by (simp add: addLeadingZeros_def digitsOf_3 digitChar_0)
  next
    case 4
    then show ?thesis
      using assms by (simp add: addLeadingZeros_def digitsOf_4)
  qed
qed

lemma readNumber_2:
  "readNumber 2 (digitChar a # digitChar b # rest) =
     Some (int (a mod 10 * 10 + b mod 10), rest)"
  by (simp add: readNumber_def digitValue_digitChar numeral_2_eq_2)

lemma readNumber_4:
  "readNumber 4 (digitChar a # digitChar b # digitChar c # digitChar e # rest) =
     Some (int (((a mod 10 * 10 + b mod 10) * 10 + c mod 10) * 10 + e mod 10), rest)"
  by (simp add: readNumber_def digitValue_digitChar four_eq)

lemma two_digits:
  assumes "n < 100"
  shows "n div 10 mod 10 * 10 + n mod 10 = (n::nat)"
proof -
  have "n div 10 mod 10 = n div 10"
    using assms by simp
  then show ?thesis by simp
qed

lemma four_digits:
  assumes "n < 10000"
  shows "((n div 1000 mod 10 * 10 + n div 100 mod 10) * 10 + n div 10 mod 10) * 10 + n mod 10 =
         (n::nat)"
proof -
  have a: "n div 1000 mod 10 = n div 1000"
    using assms by simp
  have e: "n div 1000 = n div 100 div 10" "n div 100 = n div 10 div 10"
    by (simp_all add: div_mult2_eq [symmetric])
  have b: "n div 1000 * 10 + n div 100 mod 10 = n div 100"
    unfolding e(1) by simp
  have c: "n div 100 * 10 + n div 10 mod 10 = n div 10"
    unfolding e(2) by simp
  show ?thesis
    unfolding a b c by simp
qed

lemma read_pad_2:
  assumes "0 \<le> v" "v < 100"
  shows "readNumber 2 (addLeadingZeros v 2 @ rest) = Some (v, rest)"
proof -
  have "nat v < 100" using assms by simp
  then have "nat v div 10 mod 10 * 10 + nat v mod 10 = nat v"
    by (rule two_digits)
  then have "int (nat v div 10 mod 10 * 10 + nat v mod 10) = int (nat v)"
    by (rule arg_cong)
  also have "int (nat v) = v"
    using assms(1) by simp
  finally show ?thesis
    using assms by (simp only: addLeadingZeros_2 readNumber_2 append_Cons append_Nil)
qed

lemma read_pad_4:
  assumes "0 \<le> v" "v < 10000"
  shows "readNumber 4 (addLeadingZeros v 4 @ rest) = Some (v, rest)"
proof -
  have "nat v < 10000" using assms by simp
  then have "((nat v div 1000 mod 10 * 10 + nat v div 100 mod 10) * 10 +
      nat v div 10 mod 10) * 10 + nat v mod 10 = nat v"
    by (rule four_digits)
  then have "int (((nat v div 1000 mod 10 * 10 + nat v div 100 mod 10) * 10 +
      nat v div 10 mod 10) * 10 + nat v mod 10) = int (nat v)"
    by (rule arg_cong)
  also have "int (nat v) = v"
    using assms(1) by simp
  finally show ?thesis
    using assms by (simp only: addLeadingZeros_4 readNumber_4 append_Cons append_Nil)
qed


lemma daysFromCivil_day: "daysFromCivil y m d = daysFromCivil y m 1 + d - 1"
  by (simp add: daysFromCivil_def Let_def)

lemma daysInMonth_next:
  assumes "1 \<le> m" "m \<le> 12"
  shows "daysInMonth y m = daysFromCivil (y + m div 12) (m mod 12 + 1) 1 - daysFromCivil y m 1"
proof -
  have "(m - 1) div 12 = 0" "(m - 1) mod 12 + 1 = m"
    using assms by simp_all
  then show ?thesis
    by (simp add: daysInMonth_def MakeDay_def)
qed

lemma utc_parse_format_default:
  assumes "civilFromDays z = (y, m, d)" "1 \<le> y" "y \<le> 9999"
  shows "utc_parse (utc_format (z * msPerDay) ''dd/MM/yyyy'') ''dd/MM/yyyy'' ref =
         Some (z * msPerDay)"
proof -
  from civilFromDays_inverse [OF assms(1)]
  have inv: "daysFromCivil y m d = z" and m: "1 \<le> m" "m \<le> 12" and d: "1 \<le> d" "d \<le> 31"
    and nxt: "z < daysFromCivil (y + m div 12) (m mod 12 + 1) 1"
    by simp_all
  let ?year = "addLeadingZeros y 4"
  let ?month = "addLeadingZeros m 2 @ CHR ''/'' # ?year"
  let ?text = "addLeadingZeros d 2 @ CHR ''/'' # ?month"
  have fmt: "utc_format (z * msPerDay) ''dd/MM/yyyy'' = ?text"
    using assms(2) by (simp add: utc_format_def msPerDay_def assms(1))
  have r1: "readNumber 2 ?text = Some (d, CHR ''/'' # ?month)"
    using d by (intro read_pad_2) simp_all
  have r2: "readNumber 2 ?month = Some (m, CHR ''/'' # ?year)"
    using m by (intro read_pad_2) simp_all
  have r3: "readNumber 4 ?year = Some (y, [])"
    using assms(2,3) read_pad_4 [of y "[]"] by simp
  have toks: "parseTokens ''dd/MM/yyyy'' ?text \<lparr>p_year = None, p_month = None, p_day = None\<rparr> =
      Some \<lparr>p_year = Some y, p_month = Some m, p_day = Some d\<rparr>"
    by (simp add: r1 r2 r3)
  have dim: "\<not> daysInMonth y m < d"
    using nxt inv daysFromCivil_day [of y m d] by (simp add: daysInMonth_next [OF m])
  show ?thesis
    unfolding utc_parse_def fmt toks
    using m d dim inv by (simp add: Let_def split: prod.splits)
qed

subsection \<open>Values of the examples\<close>


lemma day_2020_01_03: "day 2020 1 3 = 1578009600000"
  by code_simp

lemma day_2020_01_05: "day 2020 1 5 = 1578182400000"
  by code_simp

lemma day_2020_01_10: "day 2020 1 10 = 1578614400000"
  by code_simp

lemma day_2020_01_15: "day 2020 1 15 = 1579046400000"
  by code_simp

lemma day_2020_01_20: "day 2020 1 20 = 1579478400000"
  by code_simp

lemma utc_fields:
  "add utc = utc_add" "addDays utc = utc_addDays" "eachDayOfInterval utc = utc_eachDayOfInterval"
  "isAfter utc = (\<lambda>a b. b < a)" "isBefore utc = (\<lambda>a b. a < b)" "isSameDay utc = utc_isSameDay"
  "format utc = utc_format" "parse utc = utc_parse" "validateDates utc = validateDates_spec"
  by (simp_all add: utc_def)

lemma pickingEnd_fields:
  "dateRange (pickingEnd d) = \<lparr>start = Some d, end' = None\<rparr>"
  "activeSelection (pickingEnd d) = ActiveSelection_end"
  "focusedDate (pickingEnd d) = None"
  by (simp_all add: pickingEnd_def initialState_def)

lemma idle_fields:
  "dateRange (idle a b) = \<lparr>start = Some a, end' = Some b\<rparr>"
  "activeSelection (idle a b) = ActiveSelection_none"
  "onDatesChangeCalls (idle a b) = []"
  by (simp_all add: idle_def initialState_def)


lemma parse_2020_01_01: "utc_parse ''01/01/2020'' ''dd/MM/yyyy'' ref = Some 1577836800000"
  by (simp add: utc_parse_def readNumber_def digitValue_def daysInMonth_def MakeDay_def
      daysFromCivil_def msPerDay_def eval_nat_numeral)

lemma parse_empty_text: "utc_parse '''' ''dd/MM/yyyy'' ref = None"
  by (simp add: utc_parse_def readNumber_def)

text \<open>The validator modelled from the spec accepts every range with one endpoint.\<close>

lemma validateDates_spec_start_only:
  "validateDates_spec (validateArgs I props \<lparr>start = Some d, end' = None\<rparr>)"
  by (simp add: validateDates_spec_def validateArgs_def)

lemma validateDates_spec_reversed:
  "\<not> validateDates utc
       (validateArgs utc plainProps \<lparr>start = Some (day 2020 1 5), end' = Some (day 2020 1 3)\<rparr>)"
  by (simp add: utc_fields validateDates_spec_def validateArgs_def day_2020_01_05 day_2020_01_03)

lemma validateDates_spec_forward:
  "validateDates utc
       (validateArgs utc plainProps \<lparr>start = Some (day 2020 1 5), end' = Some (day 2020 1 10)\<rparr>)"
  by code_simp

text \<open>
  A click while the selection is none whose range validation refuses: the only update is
  the \<^verbatim>\<open>setActiveSelection(ActiveSelection.start)\<close> enqueued before \<^verbatim>\<open>onDateSelect\<close>.
\<close>

lemma onDateClick_idle_declined:
  assumes "activeSelection s = ActiveSelection_none"
    and "\<not> validateDates I (validateArgs I props \<lparr>start = Some dt, end' = None\<rparr>)"
  shows "onDateClick I props s dt = s\<lparr>activeSelection := ActiveSelection_start\<rparr>"
  using assms by (simp add: onDateClick_def onDateSelect_invalid)

text \<open>
  The example states are reached by clicks: the first click after mount commits the
  start and moves to picking-end, a second click commits the end and leaves the
  selection at none.
\<close>

lemma pickingEnd_reached:
  assumes "validateDates I (validateArgs I props \<lparr>start = Some d, end' = None\<rparr>)"
  shows "dateRange (onDateClick I props (useDatePicker_mounted I props) d) =
           dateRange (pickingEnd d) \<and>
         activeSelection (onDateClick I props (useDatePicker_mounted I props) d) =
           activeSelection (pickingEnd d)"
proof -
  have m: "activeSelection (useDatePicker_mounted I props) = ActiveSelection_start"
    "dateRange (useDatePicker_mounted I props) = \<lparr>start = None, end' = None\<rparr>"
    by (simp_all add: useDatePicker_mounted_def mountEffect_def initialState_def)
  have r: "(dateRange (useDatePicker_mounted I props))\<lparr>start := Some d\<rparr> =
      \<lparr>start = Some d, end' = None\<rparr>"
    by (simp add: m)
  show ?thesis
    using assms
    by (simp add: onDateClick_def m(1) r onDateSelect_valid_range onDateSelect_valid_selection
        pickingEnd_fields)
qed

lemma idle_reached:
  assumes "validateDates I (validateArgs I props \<lparr>start = Some a, end' = Some b\<rparr>)"
  shows "dateRange (onDateClick I props (pickingEnd a) b) = dateRange (idle a b) \<and>
         activeSelection (onDateClick I props (pickingEnd a) b) = activeSelection (idle a b)"
proof -
  have r: "(dateRange (pickingEnd a))\<lparr>end' := Some b\<rparr> = \<lparr>start = Some a, end' = Some b\<rparr>"
    by (simp add: pickingEnd_fields)
  show ?thesis
    using assms
    by (simp add: onDateClick_def pickingEnd_fields(2) r onDateSelect_valid_range
        onDateSelect_valid_selection idle_fields)
qed

text \<open>
  In the concrete calendar, with the default format, every midnight of the years 1 to
  9999 is read back from its text, whatever the reference date; so the texts of a range
  of such days, or of absent endpoints, typed into a picker with an empty range, commit
  the range, provided validation accepts it.
\<close>

lemma utc_parse_format_plainDay:
  assumes "plainDay (Some dt)"
  shows "utc_parse (utc_format dt ''dd/MM/yyyy'') ''dd/MM/yyyy'' ref = Some dt"
proof -
  obtain y m d where civ: "civilFromDays (dt div msPerDay) = (y, m, d)"
    by (cases "civilFromDays (dt div msPerDay)") auto
  from assms have mid: "dt mod msPerDay = 0" and y: "1 \<le> y" "y \<le> 9999"
    by (simp_all add: plainDay_def civ)
  from mid have dt: "dt div msPerDay * msPerDay = dt"
    using div_mult_mod_eq [of dt msPerDay] by simp
  from utc_parse_format_default [OF civ y, of ref] show ?thesis
    by (simp add: dt)
qed

lemma utc_input_text_round_trip:
  assumes "inputFormat props = ''dd/MM/yyyy''"
    and "plainDay (start r)" and "plainDay (end' r)"
    and "dateRange s = \<lparr>start = None, end' = None\<rparr>"
    and "end' r \<noteq> None \<Longrightarrow> validateDates utc (validateArgs utc props r)"
  shows "dateRange
           (onChange utc props
              (onChange utc props s ActiveSelection_start
                 (input_start (getInputValuesFromRange utc props r)) now1)
              ActiveSelection_end
              (input_end (getInputValuesFromRange utc props r)) now2) = r"
proof -
  have p1: "parse utc (input_start (getInputValuesFromRange utc props r))
      (inputFormat props) now1 = start r"
    using assms(2)
    by (cases "start r")
      (simp_all add: getInputValuesFromRange_def assms(1) utc_fields parse_empty_text
        utc_parse_format_plainDay)
  have p2: "parse utc (input_end (getInputValuesFromRange utc props r))
      (inputFormat props) now2 = end' r"
    using assms(3)
    by (cases "end' r")
      (simp_all add: getInputValuesFromRange_def assms(1) utc_fields parse_empty_text
        utc_parse_format_plainDay)
  have ok: "validateDates utc (validateArgs utc props \<lparr>start = start r, end' = None\<rparr>)"
    by (cases "start r") (simp_all add: utc_fields validateDates_spec_def validateArgs_def)
  from onChange_texts_from_empty [OF assms(4) p1 p2 ok assms(5)] show ?thesis by simp
qed




subsection \<open>The claims\<close>

text \<open>
  C1. The claim: for a potential range that passes the minimum-range and maximum-range
  checks, the error is \<^verbatim>\<open>CONTAINS_BLOCKED_DATE\<close> if and only if some day of the inclusive
  interval is blocked, and null otherwise. The source negates the test
  (\<^verbatim>\<open>!eachDayOfInterval(range).some(...)\<close>), so it does the opposite. With 5 January 2020
  blocked, 1 January the committed start and 10 January hovered, the blocked day is in
  the interval and the error is null; with no blocked day at all the error is
  \<^verbatim>\<open>CONTAINS_BLOCKED_DATE\<close>.
\<close>

theorem calculatePotentialRange_blocked_check_inverted:
  "isDisabled utc blockedProps (day 2020 1 5) \<and>
   map_option (\<lambda>ds. day 2020 1 5 \<in> set ds)
     (eachDayOfInterval utc \<lparr>istart = day 2020 1 1, iend = day 2020 1 10\<rparr>) = Some True \<and>
   map_option potentialRange
     (calculatePotentialRange utc blockedProps (pickingEnd (day 2020 1 1))
        (Some (day 2020 1 10))) =
     Some (Some \<lparr>range' = \<lparr>istart = day 2020 1 1, iend = day 2020 1 10\<rparr>, error = None\<rparr>) \<and>
   map_option potentialRange
     (calculatePotentialRange utc plainProps (pickingEnd (day 2020 1 1))
        (Some (day 2020 1 10))) =
     Some (Some \<lparr>range' = \<lparr>istart = day 2020 1 1, iend = day 2020 1 10\<rparr>,
                  error = Some \<lparr>reason = CONTAINS_BLOCKED_DATE\<rparr>\<rparr>)"
  by code_simp

text \<open>
  C2. When validation fails, \<^verbatim>\<open>onDateSelect\<close> changes nothing: the committed range, the
  active selection, the visible months and the input texts stay as they are (the state
  it was called on comes back unchanged, whatever render \<open>snap\<close> the closure belongs to)
  and \<^verbatim>\<open>onDatesChange\<close> is not called. \<^verbatim>\<open>onDatesChange\<close> is called exactly when
  validation succeeds, once, with null for an absent endpoint, and the range is then
  committed. The model is total: no branch of it throws.
\<close>

theorem onDateSelect_declines_or_commits:
  "(\<not> validateDates I (validateArgs I props r) \<longrightarrow>
      onDateSelect I props snap r sync s = s) \<and>
   (validateDates I (validateArgs I props r) \<longrightarrow>
      dateRange (onDateSelect I props snap r sync s) = r) \<and>
   onDatesChangeCalls (onDateSelect I props snap r sync s) =
     (if validateDates I (validateArgs I props r)
      then onDatesChangeCalls s @
             [\<lparr>cb_startDate = (case start r of None \<Rightarrow> Null | Some d \<Rightarrow> DateValue d),
               cb_endDate = (case end' r of None \<Rightarrow> Null | Some d \<Rightarrow> DateValue d)\<rparr>]
      else onDatesChangeCalls s)"
  by (simp add: onDateSelect_invalid onDateSelect_valid_calls onDateSelect_valid_range
      orNull_def)

theorem onDateSelect_declines_or_commits_witness:
  "\<not> validateDates utc
       (validateArgs utc plainProps
          \<lparr>start = Some (day 2020 1 5), end' = Some (day 2020 1 3)\<rparr>) \<and>
   onDateSelect utc plainProps (pickingEnd (day 2020 1 5))
     \<lparr>start = Some (day 2020 1 5), end' = Some (day 2020 1 3)\<rparr> True
     (pickingEnd (day 2020 1 5)) = pickingEnd (day 2020 1 5) \<and>
   validateDates utc
     (validateArgs utc plainProps
        \<lparr>start = Some (day 2020 1 5), end' = Some (day 2020 1 10)\<rparr>) \<and>
   onDatesChangeCalls
     (onDateSelect utc plainProps (pickingEnd (day 2020 1 5))
        \<lparr>start = Some (day 2020 1 5), end' = Some (day 2020 1 10)\<rparr> True
        (pickingEnd (day 2020 1 5))) =
     [\<lparr>cb_startDate = DateValue (day 2020 1 5), cb_endDate = DateValue (day 2020 1 10)\<rparr>]"
  using
    onDateSelect_declines_or_commits [where I = utc and props = plainProps
      and r = "\<lparr>start = Some (day 2020 1 5), end' = Some (day 2020 1 3)\<rparr>"
      and snap = "pickingEnd (day 2020 1 5)" and s = "pickingEnd (day 2020 1 5)"
      and sync = True]
    onDateSelect_declines_or_commits [where I = utc and props = plainProps
      and r = "\<lparr>start = Some (day 2020 1 5), end' = Some (day 2020 1 10)\<rparr>"
      and snap = "pickingEnd (day 2020 1 5)" and s = "pickingEnd (day 2020 1 5)"
      and sync = True]
    validateDates_spec_reversed validateDates_spec_forward
  by (simp add: pickingEnd_def initialState_def)

text \<open>
  C3. The claim: the committed range is pre-seeded from the caller's \<^verbatim>\<open>startDate\<close> and
  \<^verbatim>\<open>endDate\<close>, and the initial selection is picking-end when a start is given without an
  end. The hook never reads the two props. With \<^verbatim>\<open>startDate\<close> 1 January 2020 and no
  \<^verbatim>\<open>endDate\<close> the mounted picker has an empty range and is picking the start.
\<close>

theorem initial_dates_counterexample:
  "startDate seededProps = DateValue (day 2020 1 1) \<and>
   endDate seededProps = Null \<and>
   start (dateRange (useDatePicker_mounted utc seededProps)) \<noteq> Some (day 2020 1 1) \<and>
   activeSelection (useDatePicker_mounted utc seededProps) \<noteq> ActiveSelection_end"
  by (simp add: seededProps_def plainProps_def useDatePicker_mounted_def mountEffect_def
      initialState_def)

text \<open>
  C3, amended. Whatever initial \<^verbatim>\<open>startDate\<close> and \<^verbatim>\<open>endDate\<close> the caller supplies, at
  initialization the committed range is empty and the active selection is picking-start.
\<close>

theorem useDatePicker_mounted_ignores_initial_dates:
  "dateRange (useDatePicker_mounted I props) = \<lparr>start = None, end' = None\<rparr> \<and>
   activeSelection (useDatePicker_mounted I props) = ActiveSelection_start"
  by (simp add: useDatePicker_mounted_def mountEffect_def initialState_def)

text \<open>
  C4. The claim: the hover error is decided first-match-wins in the order
  \<^verbatim>\<open>LESS_THAN_MIN_DATE\<close>, \<^verbatim>\<open>GREATER_THAN_MAX_DATE\<close>, \<^verbatim>\<open>BLOCKED_DATE\<close>,
  \<^verbatim>\<open>VIOLATES_FIX_RANGE\<close>, so a blocked date later than \<^verbatim>\<open>maxDate\<close> is
  \<^verbatim>\<open>GREATER_THAN_MAX_DATE\<close>. With \<^verbatim>\<open>maxDate\<close> 10 January 2020 and 15 January blocked,
  hovering 15 January gives \<^verbatim>\<open>BLOCKED_DATE\<close>.
\<close>

theorem onDateHover_order_counterexample:
  "isDisabled utc maxProps (day 2020 1 15) \<and>
   greaterThanMaxDate utc maxProps (day 2020 1 15) \<and>
   hoveredDate (onDateHover utc maxProps (initialState maxProps) (day 2020 1 15)) =
     Some \<lparr>hovered_date = day 2020 1 15, hovered_error = Some \<lparr>reason = BLOCKED_DATE\<rparr>\<rparr> \<and>
   hoveredDate (onDateHover utc maxProps (initialState maxProps) (day 2020 1 15)) \<noteq>
     Some \<lparr>hovered_date = day 2020 1 15,
            hovered_error = Some \<lparr>reason = GREATER_THAN_MAX_DATE\<rparr>\<rparr>"
  by code_simp

text \<open>
  C4, amended. The hover error is decided first-match-wins in the order
  \<^verbatim>\<open>LESS_THAN_MIN_DATE\<close> (the date is before \<^verbatim>\<open>minDate\<close> minus one day), \<^verbatim>\<open>BLOCKED_DATE\<close>,
  \<^verbatim>\<open>GREATER_THAN_MAX_DATE\<close>, \<^verbatim>\<open>VIOLATES_FIX_RANGE\<close>; a blocked date later than
  \<^verbatim>\<open>maxDate\<close> is \<^verbatim>\<open>BLOCKED_DATE\<close>.
\<close>

theorem onDateHover_order:
  "hoveredDate (onDateHover I props s dt) =
     Some \<lparr>hovered_date = dt,
            hovered_error =
              (if lessThanMinDate I props dt then Some \<lparr>reason = LESS_THAN_MIN_DATE\<rparr>
               else if isDisabled I props dt then Some \<lparr>reason = BLOCKED_DATE\<rparr>
               else if greaterThanMaxDate I props dt
                 then Some \<lparr>reason = GREATER_THAN_MAX_DATE\<rparr>
               else if (case fixRange props of
                          None \<Rightarrow> False
                        | Some f \<Rightarrow> afterFixRange I f (start (dateRange s)) dt \<or>
                                    afterFixRange I f (end' (dateRange s)) dt)
                 then Some \<lparr>reason = VIOLATES_FIX_RANGE\<rparr>
               else None)\<rparr>"
  by (simp add: onDateHover_def hoverError_first_match toError_def)

text \<open>
  C5. On a hover-date change a potential range is formed only when the selection
  targets an endpoint, the opposite endpoint is committed, and the hovered date lies
  strictly beyond it (after the committed start when the end is picked, before the
  committed end when the start is picked); the range then runs from the earlier to the
  later of the two. In every other case, which includes no committed endpoint and
  \<^verbatim>\<open>ActiveSelection.none\<close>, the potential range is set to undefined. (When a range is
  formed, the result is a state holding it, unless \<^verbatim>\<open>eachDayOfInterval\<close> throws.)
\<close>

theorem calculatePotentialRange_formed_iff:
  "(calculatePotentialRange I props s (Some dt) = Some (s\<lparr>potentialRange := None\<rparr>)) =
     (\<not> ((activeSelection s = ActiveSelection_end \<and>
            (\<exists>a. start (dateRange s) = Some a \<and> a < dt)) \<or>
         (activeSelection s = ActiveSelection_start \<and>
            (\<exists>b. end' (dateRange s) = Some b \<and> dt < b)))) \<and>
   (\<forall>s' pr. calculatePotentialRange I props s (Some dt) = Some s' \<and>
        potentialRange s' = Some pr \<longrightarrow>
      (activeSelection s = ActiveSelection_end \<and>
         (\<exists>a. start (dateRange s) = Some a \<and> a < dt \<and>
              range' pr = \<lparr>istart = a, iend = dt\<rparr>)) \<or>
      (activeSelection s = ActiveSelection_start \<and>
         (\<exists>b. end' (dateRange s) = Some b \<and> dt < b \<and>
              range' pr = \<lparr>istart = dt, iend = b\<rparr>)))"
proof (intro conjI allI impI)
  show "(calculatePotentialRange I props s (Some dt) = Some (s\<lparr>potentialRange := None\<rparr>)) =
     (\<not> ((activeSelection s = ActiveSelection_end \<and>
            (\<exists>a. start (dateRange s) = Some a \<and> a < dt)) \<or>
         (activeSelection s = ActiveSelection_start \<and>
            (\<exists>b. end' (dateRange s) = Some b \<and> dt < b))))"
    unfolding formRange_None_iff [symmetric]
    by (auto simp: calculatePotentialRange_cases potentialRange_update_neq split: option.splits)
next
  fix s' pr
  assume "calculatePotentialRange I props s (Some dt) = Some s' \<and> potentialRange s' = Some pr"
  then obtain r where "formRange s dt = Some r" and "range' pr = r"
    by (auto simp: calculatePotentialRange_cases split: option.splits)
  then show "(activeSelection s = ActiveSelection_end \<and>
         (\<exists>a. start (dateRange s) = Some a \<and> a < dt \<and>
              range' pr = \<lparr>istart = a, iend = dt\<rparr>)) \<or>
      (activeSelection s = ActiveSelection_start \<and>
         (\<exists>b. end' (dateRange s) = Some b \<and> dt < b \<and>
              range' pr = \<lparr>istart = dt, iend = b\<rparr>))"
    using formRange_Some_iff [of s dt r] by auto
qed

theorem calculatePotentialRange_formed_iff_witness:
  "calculatePotentialRange utc plainProps (pickingEnd (day 2020 1 10)) (Some (day 2020 1 5)) =
     Some ((pickingEnd (day 2020 1 10))\<lparr>potentialRange := None\<rparr>) \<and>
   (\<exists>s'. calculatePotentialRange utc plainProps (pickingEnd (day 2020 1 1))
           (Some (day 2020 1 10)) = Some s' \<and>
         map_option range' (potentialRange s') =
           Some \<lparr>istart = day 2020 1 1, iend = day 2020 1 10\<rparr>)"
proof -
  have cleared: "calculatePotentialRange utc plainProps (pickingEnd (day 2020 1 10))
      (Some (day 2020 1 5)) = Some ((pickingEnd (day 2020 1 10))\<lparr>potentialRange := None\<rparr>)"
    using calculatePotentialRange_formed_iff
      [of utc plainProps "pickingEnd (day 2020 1 10)" "day 2020 1 5"]
    by (simp add: pickingEnd_fields day_2020_01_10 day_2020_01_05)
  have "map_option potentialRange
      (calculatePotentialRange utc plainProps (pickingEnd (day 2020 1 1))
        (Some (day 2020 1 10))) =
      Some (Some \<lparr>range' = \<lparr>istart = day 2020 1 1, iend = day 2020 1 10\<rparr>,
                   error = Some \<lparr>reason = CONTAINS_BLOCKED_DATE\<rparr>\<rparr>)"
    by code_simp
  then obtain s' where s': "calculatePotentialRange utc plainProps (pickingEnd (day 2020 1 1))
         (Some (day 2020 1 10)) = Some s'"
      "potentialRange s' = Some \<lparr>range' = \<lparr>istart = day 2020 1 1, iend = day 2020 1 10\<rparr>,
                   error = Some \<lparr>reason = CONTAINS_BLOCKED_DATE\<rparr>\<rparr>"
    by auto
  then have "map_option range' (potentialRange s') =
      Some \<lparr>istart = day 2020 1 1, iend = day 2020 1 10\<rparr>"
    by simp
  with cleared s'(1) show ?thesis by blast
qed

text \<open>
  C6. The claim: with a \<^verbatim>\<open>fixRange\<close> configured and an endpoint committed, a hovered
  date more than \<^verbatim>\<open>fixRange\<close> after the endpoint, or more than \<^verbatim>\<open>fixRange\<close> before it,
  is rejected with \<^verbatim>\<open>VIOLATES_FIX_RANGE\<close>. The source tests
  \<^verbatim>\<open>isAfter(date, add(endpoint, fixRange))\<close> only. With a \<^verbatim>\<open>fixRange\<close> of three days and
  the start 10 January 2020 committed, 1 January lies more than three days before the
  endpoint, no earlier rule matches, and the hover error is null.
\<close>

theorem onDateHover_fixRange_counterexample:
  "fixRange fixProps = Some threeDays \<and>
   start (dateRange (pickingEnd (day 2020 1 10))) = Some (day 2020 1 10) \<and>
   isAfter utc (day 2020 1 10) (add utc (day 2020 1 1) threeDays) \<and>
   isDisabled utc fixProps (day 2020 1 1) = False \<and>
   lessThanMinDate utc fixProps (day 2020 1 1) = False \<and>
   greaterThanMaxDate utc fixProps (day 2020 1 1) = False \<and>
   hoveredDate (onDateHover utc fixProps (pickingEnd (day 2020 1 10)) (day 2020 1 1)) =
     Some \<lparr>hovered_date = day 2020 1 1, hovered_error = None\<rparr>"
  by code_simp

text \<open>
  C6, amended. With a \<^verbatim>\<open>fixRange\<close> configured, a hovered date that lies after
  \<^verbatim>\<open>endpoint + fixRange\<close> for a committed endpoint, the start or the end, is rejected with
  \<^verbatim>\<open>VIOLATES_FIX_RANGE\<close>, given that no earlier rule matched.
\<close>

theorem onDateHover_after_fixRange:
  assumes "fixRange props = Some f"
    and "\<exists>e. (start (dateRange s) = Some e \<or> end' (dateRange s) = Some e) \<and>
             isAfter I dt (add I e f)"
    and "\<not> lessThanMinDate I props dt"
    and "\<not> isDisabled I props dt"
    and "\<not> greaterThanMaxDate I props dt"
  shows "hoveredDate (onDateHover I props s dt) =
           Some \<lparr>hovered_date = dt, hovered_error = Some \<lparr>reason = VIOLATES_FIX_RANGE\<rparr>\<rparr>"
proof -
  from assms(2) have "afterFixRange I f (start (dateRange s)) dt \<or>
      afterFixRange I f (end' (dateRange s)) dt"
    by (auto simp: afterFixRange_def)
  with assms(1,3,4,5) have "hoverError I props s dt = Some VIOLATES_FIX_RANGE"
    by (simp add: hoverError_first_match)
  then show ?thesis by (simp add: onDateHover_def toError_def)
qed

lemma fixProps_example:
  "fixRange fixProps = Some threeDays"
  "isAfter utc (day 2020 1 20) (add utc (day 2020 1 10) threeDays)"
  "\<not> lessThanMinDate utc fixProps (day 2020 1 20)"
  "\<not> isDisabled utc fixProps (day 2020 1 20)"
  "\<not> greaterThanMaxDate utc fixProps (day 2020 1 20)"
  by code_simp+

theorem onDateHover_after_fixRange_witness:
  "fixRange fixProps = Some threeDays \<and>
   start (dateRange (pickingEnd (day 2020 1 10))) = Some (day 2020 1 10) \<and>
   isAfter utc (day 2020 1 20) (add utc (day 2020 1 10) threeDays) \<and>
   hoveredDate (onDateHover utc fixProps (pickingEnd (day 2020 1 10)) (day 2020 1 20)) =
     Some \<lparr>hovered_date = day 2020 1 20,
            hovered_error = Some \<lparr>reason = VIOLATES_FIX_RANGE\<rparr>\<rparr>"
proof -
  have "\<exists>e. (start (dateRange (pickingEnd (day 2020 1 10))) = Some e \<or>
             end' (dateRange (pickingEnd (day 2020 1 10))) = Some e) \<and>
            isAfter utc (day 2020 1 20) (add utc e threeDays)"
    using fixProps_example(2) by (simp add: pickingEnd_fields)
  from onDateHover_after_fixRange [OF fixProps_example(1) this fixProps_example(3,4,5)]
  show ?thesis
    using fixProps_example(1,2) by (simp add: pickingEnd_fields)
qed

text \<open>
  C7. A click on a date while the active selection is none starts a fresh range: the
  clicked date becomes the start, a committed end is discarded, the selection moves to
  picking-end, and \<^verbatim>\<open>onDatesChange\<close> is told the new start and a null end. The click is
  validated like every other; \<^verbatim>\<open>validateDates\<close> is defined in another module, and that it
  accepts a range with one endpoint is what section 4.1 of the spec says of it
  (\<open>validateDates_spec_start_only\<close> for the validator modelled from the spec).
\<close>

theorem onDateClick_idle_starts_fresh_range:
  assumes "activeSelection s = ActiveSelection_none"
    and "validateDates I (validateArgs I props \<lparr>start = Some dt, end' = None\<rparr>)"
  shows "dateRange (onDateClick I props s dt) = \<lparr>start = Some dt, end' = None\<rparr> \<and>
         activeSelection (onDateClick I props s dt) = ActiveSelection_end \<and>
         onDatesChangeCalls (onDateClick I props s dt) =
           onDatesChangeCalls s @ [\<lparr>cb_startDate = DateValue dt, cb_endDate = Null\<rparr>]"
  using assms
  by (simp add: onDateClick_def onDateSelect_valid_range onDateSelect_valid_selection
      onDateSelect_valid_calls orNull_def)

theorem onDateClick_idle_starts_fresh_range_witness:
  "activeSelection (idle (day 2020 1 1) (day 2020 1 10)) = ActiveSelection_none \<and>
   dateRange (idle (day 2020 1 1) (day 2020 1 10)) =
     \<lparr>start = Some (day 2020 1 1), end' = Some (day 2020 1 10)\<rparr> \<and>
   validateDates utc (validateArgs utc plainProps \<lparr>start = Some (day 2020 1 20), end' = None\<rparr>) \<and>
   dateRange (onDateClick utc plainProps (idle (day 2020 1 1) (day 2020 1 10)) (day 2020 1 20)) =
     \<lparr>start = Some (day 2020 1 20), end' = None\<rparr> \<and>
   activeSelection
     (onDateClick utc plainProps (idle (day 2020 1 1) (day 2020 1 10)) (day 2020 1 20)) =
     ActiveSelection_end \<and>
   onDatesChangeCalls
     (onDateClick utc plainProps (idle (day 2020 1 1) (day 2020 1 10)) (day 2020 1 20)) =
     [\<lparr>cb_startDate = DateValue (day 2020 1 20), cb_endDate = Null\<rparr>]"
proof -
  have valid: "validateDates utc
      (validateArgs utc plainProps \<lparr>start = Some (day 2020 1 20), end' = None\<rparr>)"
    by (simp add: utc_fields validateDates_spec_start_only)
  from onDateClick_idle_starts_fresh_range [OF idle_fields(2) valid]
  show ?thesis
    using valid by (simp add: idle_fields)
qed

text \<open>
  C8. Recomputing the potential range is idempotent and deterministic: in the state a
  recomputation returns, the same recomputation returns that state again (and a
  recomputation that throws has changed nothing), and the potential range computed
  depends on the state through the committed range and the active selection only.
\<close>

theorem calculatePotentialRange_idempotent:
  "(case calculatePotentialRange I props s x of
      None \<Rightarrow> True
    | Some s' \<Rightarrow> calculatePotentialRange I props s' x = Some s') \<and>
   (dateRange s = dateRange t \<and> activeSelection s = activeSelection t \<longrightarrow>
      map_option potentialRange (calculatePotentialRange I props s x) =
      map_option potentialRange (calculatePotentialRange I props t x))"
proof -
  have idem: "case calculatePotentialRange I props s x of
      None \<Rightarrow> True
    | Some s' \<Rightarrow> calculatePotentialRange I props s' x = Some s'"
    by (simp add: calculatePotentialRange_again split: option.splits)
  have same: "map_option potentialRange (calculatePotentialRange I props s x) =
      map_option potentialRange (calculatePotentialRange I props t x)"
    if "dateRange s = dateRange t" "activeSelection s = activeSelection t"
  proof (cases x)
    case None
    then show ?thesis by (simp add: calculatePotentialRange_def)
  next
    case (Some dt)
    from that have "formRange s dt = formRange t dt"
      by (rule formRange_depends)
    with Some show ?thesis
      by (auto simp: calculatePotentialRange_cases split: option.splits)
  qed
  from idem same show ?thesis by blast
qed

theorem calculatePotentialRange_idempotent_witness:
  "pickingEnd (day 2020 1 1) \<noteq> (pickingEnd (day 2020 1 1))\<lparr>focusedDate := Some (day 2020 1 3)\<rparr> \<and>
   (\<exists>s'. calculatePotentialRange utc plainProps (pickingEnd (day 2020 1 1))
            (Some (day 2020 1 10)) = Some s' \<and>
          calculatePotentialRange utc plainProps s' (Some (day 2020 1 10)) = Some s') \<and>
   map_option potentialRange
     (calculatePotentialRange utc plainProps (pickingEnd (day 2020 1 1)) (Some (day 2020 1 10))) =
   map_option potentialRange
     (calculatePotentialRange utc plainProps
        ((pickingEnd (day 2020 1 1))\<lparr>focusedDate := Some (day 2020 1 3)\<rparr>)
        (Some (day 2020 1 10)))"
proof -
  have neq: "pickingEnd (day 2020 1 1) \<noteq>
      (pickingEnd (day 2020 1 1))\<lparr>focusedDate := Some (day 2020 1 3)\<rparr>"
  proof
    assume "pickingEnd (day 2020 1 1) =
      (pickingEnd (day 2020 1 1))\<lparr>focusedDate := Some (day 2020 1 3)\<rparr>"
    then have "focusedDate (pickingEnd (day 2020 1 1)) =
      focusedDate ((pickingEnd (day 2020 1 1))\<lparr>focusedDate := Some (day 2020 1 3)\<rparr>)"
      by (rule arg_cong)
    then show False by (simp add: pickingEnd_fields)
  qed
  have "map_option potentialRange
      (calculatePotentialRange utc plainProps (pickingEnd (day 2020 1 1))
        (Some (day 2020 1 10))) =
      Some (Some \<lparr>range' = \<lparr>istart = day 2020 1 1, iend = day 2020 1 10\<rparr>,
                   error = Some \<lparr>reason = CONTAINS_BLOCKED_DATE\<rparr>\<rparr>)"
    by code_simp
  then obtain s' where s': "calculatePotentialRange utc plainProps (pickingEnd (day 2020 1 1))
      (Some (day 2020 1 10)) = Some s'"
    by auto
  from calculatePotentialRange_idempotent
    [where I = utc and props = plainProps and s = "pickingEnd (day 2020 1 1)"
      and x = "Some (day 2020 1 10)"
      and t = "(pickingEnd (day 2020 1 1))\<lparr>focusedDate := Some (day 2020 1 3)\<rparr>"]
  have "calculatePotentialRange utc plainProps s' (Some (day 2020 1 10)) = Some s'"
    and "map_option potentialRange
     (calculatePotentialRange utc plainProps (pickingEnd (day 2020 1 1)) (Some (day 2020 1 10))) =
     map_option potentialRange
     (calculatePotentialRange utc plainProps
        ((pickingEnd (day 2020 1 1))\<lparr>focusedDate := Some (day 2020 1 3)\<rparr>)
        (Some (day 2020 1 10)))"
    by (simp_all add: s')
  with neq s' show ?thesis by blast
qed



text \<open>
  C10. The claim: for every key-down event whose key is none of the six navigation
  keys, with a date focused, the handler sets the focused date to undefined. The
  handler is throttled. With 3 January 2020 focused, ArrowRight at time 0 runs the body
  and focuses 4 January; the key \<^verbatim>\<open>a\<close> pressed 100 ms later is held by the throttle and
  the focus stays; the key-up 100 ms after that cancels the held event, and nothing is
  left to run.
\<close>

theorem handleKeyDown_throttled_counterexample:
  "focusedDate (picker (handleKeyDown utc focusedKeyboard ''ArrowRight'' 0)) =
     Some (day 2020 1 4) \<and>
   ''a'' \<notin> set navigationKeys \<and>
   focusedDate
     (picker (handleKeyDown utc (handleKeyDown utc focusedKeyboard ''ArrowRight'' 0) ''a'' 100)) =
     Some (day 2020 1 4) \<and>
   focusedDate
     (picker (handleKeyUp
        (handleKeyDown utc (handleKeyDown utc focusedKeyboard ''ArrowRight'' 0) ''a'' 100))) =
     Some (day 2020 1 4) \<and>
   throttle (handleKeyUp
     (handleKeyDown utc (handleKeyDown utc focusedKeyboard ''ArrowRight'' 0) ''a'' 100)) =
     freshThrottle"
  by code_simp

text \<open>
  C10, amended. For a key-down event whose key is none of the six navigation keys, with
  a date focused: when the 500 ms throttle lets the call through (no earlier call, or
  one cancelled by a key-up, or at least 500 ms since the last call or the last run of
  the body) the handler sets the focused date to undefined; otherwise the event is held
  and the picker state is unchanged by it, and the focused date is set to undefined
  when the throttle's timer runs the held event.
\<close>

theorem handleKeyDown_other_key_clears_focus:
  assumes "focusedDate (picker k) = Some d" and "key \<notin> set navigationKeys"
  shows "(shouldInvoke (throttle k) time \<longrightarrow>
            focusedDate (picker (handleKeyDown I k key time)) = None) \<and>
         (\<not> shouldInvoke (throttle k) time \<longrightarrow>
            picker (handleKeyDown I k key time) = picker k \<and>
            lastArgs (throttle (handleKeyDown I k key time)) = Some key) \<and>
         (lastArgs (throttle k) = Some key \<and> shouldInvoke (throttle k) time \<longrightarrow>
            focusedDate (picker (timerExpired I k time)) = None)"
  using assms
  by (simp add: handleKeyDown_def timerExpired_def keyDownBody_other_key)

theorem handleKeyDown_other_key_clears_focus_witness:
  "focusedDate (picker focusedKeyboard) = Some (day 2020 1 3) \<and>
   ''Enter'' \<notin> set navigationKeys \<and>
   shouldInvoke (throttle focusedKeyboard) 0 \<and>
   focusedDate (picker (handleKeyDown utc focusedKeyboard ''Enter'' 0)) = None \<and>
   focusedDate (picker (handleKeyDown utc focusedKeyboard ''ArrowRight'' 0)) =
     Some (day 2020 1 4) \<and>
   \<not> shouldInvoke (throttle (handleKeyDown utc focusedKeyboard ''ArrowRight'' 0)) 100 \<and>
   picker (handleKeyDown utc (handleKeyDown utc focusedKeyboard ''ArrowRight'' 0) ''Enter'' 100) =
     picker (handleKeyDown utc focusedKeyboard ''ArrowRight'' 0) \<and>
   shouldInvoke
     (throttle
        (handleKeyDown utc (handleKeyDown utc focusedKeyboard ''ArrowRight'' 0) ''Enter'' 100))
     500 \<and>
   focusedDate
     (picker
        (timerExpired utc
           (handleKeyDown utc (handleKeyDown utc focusedKeyboard ''ArrowRight'' 0) ''Enter'' 100)
           500)) = None"
proof -
  let ?k1 = "handleKeyDown utc focusedKeyboard ''ArrowRight'' 0"
  let ?k2 = "handleKeyDown utc ?k1 ''Enter'' 100"
  have f0: "focusedDate (picker focusedKeyboard) = Some (day 2020 1 3)"
    by (simp add: focusedKeyboard_def)
  have key: "''Enter'' \<notin> set navigationKeys"
    by (simp add: navigationKeys_def)
  have s0: "shouldInvoke (throttle focusedKeyboard) 0"
    by (simp add: focusedKeyboard_def freshThrottle_def shouldInvoke_def)
  have f1: "focusedDate (picker ?k1) = Some (day 2020 1 4)"
    by code_simp
  have s1: "\<not> shouldInvoke (throttle ?k1) 100"
    by code_simp
  have held: "picker ?k2 = picker ?k1" "lastArgs (throttle ?k2) = Some ''Enter''"
    using handleKeyDown_other_key_clears_focus [OF f1 key, of 100 utc] s1 by simp_all
  have f2: "focusedDate (picker ?k2) = Some (day 2020 1 4)"
    using held(1) f1 by simp
  have s2: "shouldInvoke (throttle ?k2) 500"
    by code_simp
  have a: "focusedDate (picker (handleKeyDown utc focusedKeyboard ''Enter'' 0)) = None"
    using handleKeyDown_other_key_clears_focus [OF f0 key, of 0 utc] s0 by simp
  have b: "focusedDate (picker (timerExpired utc ?k2 500)) = None"
    using handleKeyDown_other_key_clears_focus [OF f2 key, of 500 utc] held(2) s2 by simp
  from f0 key s0 a f1 s1 held(1) s2 b show ?thesis by blast
qed

end
